theory Spec2Isabelle
  imports Main "HOL-Library.Word" "HOL-Library.AList"
begin

unbundle bit_operations_syntax

section \<open>PostScript values, errors and diagnostics\<close>

text \<open>
  The security handler of \<^verbatim>\<open>src/psi/zstack.c\<close> (lines 330 to 1145) is a PostScript
  program. Its data are PostScript objects: the trailer and the encryption dictionary are
  dictionaries whose entries were read from the PDF file, so an entry can be absent or
  have any type. Strings are byte strings. A dictionary is an association list from names
  to objects, with its executable attribute (\<^verbatim>\<open>xcheck\<close>) as a flag. Real numbers,
  files and operators do not occur in the model.
\<close>

type_synonym byte = "8 word"
type_synonym bytes = "byte list"

datatype psobj =
    PNull
  | PBool bool
  | PInt int
  | PName string
  | PStr bytes
  | PArray "psobj list"
  | PDict bool "(string \<times> psobj) list"

type_synonym dict = "(string \<times> psobj) list"

text \<open>The PostScript errors that \<^verbatim>\<open>signalerror\<close> and the operators raise here.\<close>

datatype error = Undefined | TypeCheck | RangeCheck | InvalidFileAccess

text \<open>
  \<^verbatim>\<open>pdfformaterror\<close>, \<^verbatim>\<open>pdfformatwarning\<close> and \<^verbatim>\<open>printProducer\<close> are defined
  outside this file. Modelled from the spec: a format error or warning is logged and
  processing continues (section 7); each call appends one entry to the log.
\<close>

datatype diag = FormatError string | FormatWarning string | Producer

text \<open>
  A computation yields the diagnostics it logged and either the error that stopped it
  (\<open>Inl\<close>) or its result (\<open>Inr\<close>).
\<close>

type_synonym 'a ps = "diag list \<times> (error + 'a)"

definition ps_return :: "'a \<Rightarrow> 'a ps" where
  "ps_return x = ([], Inr x)"

definition signalerror :: "error \<Rightarrow> 'a ps" where
  "signalerror e = ([], Inl e)"

definition ps_bind :: "'a ps \<Rightarrow> ('a \<Rightarrow> 'b ps) \<Rightarrow> 'b ps" where
  "ps_bind m f =
     (case m of
        (l, Inl e) \<Rightarrow> (l, Inl e)
      | (l, Inr x) \<Rightarrow> (case f x of (l', r) \<Rightarrow> (l @ l', r)))"

definition pdfformaterror :: "string \<Rightarrow> unit ps" where
  "pdfformaterror msg = ([FormatError msg], Inr ())"

definition pdfformatwarning :: "string \<Rightarrow> unit ps" where
  "pdfformatwarning msg = ([FormatWarning msg], Inr ())"

definition printProducer :: "unit ps" where
  "printProducer = ([Producer], Inr ())"

text \<open>Running \<open>m\<close> for its diagnostics and then \<open>k\<close>.\<close>

definition ps_then :: "unit ps \<Rightarrow> 'b ps \<Rightarrow> 'b ps" where
  "ps_then m k = ps_bind m (\<lambda>_. k)"

subsection \<open>Operators on objects\<close>

definition name_bytes :: "string \<Rightarrow> bytes" where
  "name_bytes n = map of_char n"

text \<open>
  \<^verbatim>\<open>eq\<close>: a name and a string are equal when they have the same characters; objects
  of different types are unequal, never an error.
\<close>

fun ps_eq :: "psobj \<Rightarrow> psobj \<Rightarrow> bool" where
  "ps_eq (PName a) (PStr b) = (name_bytes a = b)"
| "ps_eq (PStr a) (PName b) = (a = name_bytes b)"
| "ps_eq x y = (x = y)"

text \<open>\<^verbatim>\<open>oget\<close> raises \<^verbatim>\<open>undefined\<close> on a missing key; \<^verbatim>\<open>knownoget\<close> is \<open>map_of\<close>.\<close>

definition oget :: "dict \<Rightarrow> string \<Rightarrow> psobj ps" where
  "oget d k = (case map_of d k of None \<Rightarrow> signalerror Undefined | Some v \<Rightarrow> ps_return v)"

definition as_dict :: "psobj \<Rightarrow> dict ps" where
  "as_dict v = (case v of PDict x d \<Rightarrow> ps_return d | _ \<Rightarrow> signalerror TypeCheck)"

definition as_int :: "psobj \<Rightarrow> int ps" where
  "as_int v = (case v of PInt i \<Rightarrow> ps_return i | _ \<Rightarrow> signalerror TypeCheck)"

definition as_str :: "psobj \<Rightarrow> bytes ps" where
  "as_str v = (case v of PStr s \<Rightarrow> ps_return s | _ \<Rightarrow> signalerror TypeCheck)"

definition as_bool :: "psobj \<Rightarrow> bool ps" where
  "as_bool v = (case v of PBool b \<Rightarrow> ps_return b | _ \<Rightarrow> signalerror TypeCheck)"

text \<open>\<^verbatim>\<open>getinterval\<close> on a string or an array; \<^verbatim>\<open>rangecheck\<close> outside it.\<close>

definition getinterval :: "'a list \<Rightarrow> int \<Rightarrow> int \<Rightarrow> 'a list ps" where
  "getinterval s i n =
     (if 0 \<le> i \<and> 0 \<le> n \<and> i + n \<le> int (length s)
      then ps_return (take (nat n) (drop (nat i) s))
      else signalerror RangeCheck)"

definition ps_getinterval :: "psobj \<Rightarrow> int \<Rightarrow> int \<Rightarrow> psobj ps" where
  "ps_getinterval v i n =
     (case v of
        PStr s \<Rightarrow> ps_bind (getinterval s i n) (\<lambda>r. ps_return (PStr r))
      | PArray xs \<Rightarrow> ps_bind (getinterval xs i n) (\<lambda>r. ps_return (PArray r))
      | _ \<Rightarrow> signalerror TypeCheck)"

subsection \<open>The document context and the capabilities\<close>

text \<open>
  The procedures read the global \<^verbatim>\<open>Trailer\<close>, test whether \<^verbatim>\<open>PDFPassword\<close> and
  \<^verbatim>\<open>FileKey\<close> are defined (\<^verbatim>\<open>where\<close>), and \<^verbatim>\<open>pdf_process_Encrypt\<close> defines
  \<^verbatim>\<open>FileKey\<close>.
\<close>

record pdfctx =
  Trailer :: dict
  PDFPassword :: "bytes option"
  FileKey :: "bytes option"

text \<open>
  The hash and cipher filters (\<^verbatim>\<open>MD5Encode\<close>, \<^verbatim>\<open>SHA256Encode\<close>,
  \<^verbatim>\<open>ArcfourDecode\<close>, \<^verbatim>\<open>AESDecode\<close>), the optional operators \<^verbatim>\<open>.saslprep\<close>
  and \<^verbatim>\<open>.locale_to_utf8\<close> and the revision 6 hash are implemented outside this file;
  the model takes them as parameters. \<open>RC4 key data\<close>, \<open>AES_CBC_decrypt key iv data padding\<close>.
\<close>

record caps =
  MD5 :: "bytes \<Rightarrow> bytes"
  SHA256 :: "bytes \<Rightarrow> bytes"
  RC4 :: "bytes \<Rightarrow> bytes \<Rightarrow> bytes"
  AES_CBC_decrypt :: "bytes \<Rightarrow> bytes \<Rightarrow> bytes \<Rightarrow> bool \<Rightarrow> bytes"
  saslprep :: "(bytes \<Rightarrow> bytes) option"
  locale_to_utf8 :: "(bytes \<Rightarrow> bytes) option"
  hardenedHash :: "bytes \<Rightarrow> bytes \<Rightarrow> bytes \<Rightarrow> bytes"

definition Encrypt :: "pdfctx \<Rightarrow> dict ps" where
  "Encrypt ctx = ps_bind (oget (Trailer ctx) ''Encrypt'') as_dict"

section \<open>The password-requirement test of \<^verbatim>\<open>pdf_process_Encrypt\<close>\<close>

text \<open>
  Lines 782 to 835. \<^verbatim>\<open>/StmF .knownget { /Identity eq not } { false } ifelse\<close>: an
  absent filter name counts as Identity.
\<close>

definition not_Identity :: "dict \<Rightarrow> string \<Rightarrow> bool" where
  "not_Identity enc k =
     (case map_of enc k of
        Some f \<Rightarrow> \<not> ps_eq f (PName ''Identity'')
      | None \<Rightarrow> False)"

definition wrong_type :: "string \<Rightarrow> 'a ps" where
  "wrong_type what =
     ps_then (pdfformaterror (''   **** Error: '' @ what @ '' has wrong type.\<newline>''))
    (ps_then (pdfformaterror ''               Cannot decrypt PDF file.\<newline>'')
       (signalerror InvalidFileAccess))"

definition require_password :: "dict \<Rightarrow> bool ps" where
  "require_password enc =
     ps_bind (oget enc ''V'') (\<lambda>v. ps_bind (as_int v) (\<lambda>v.
       if 4 \<le> v then
         (let b = (not_Identity enc ''StmF'' \<or> not_Identity enc ''StrF'') in
          case map_of enc ''CF'' of
            None \<Rightarrow> ps_return True
          | Some (PDict x cf) \<Rightarrow>
              (case map_of cf ''StdCF'' of
                 None \<Rightarrow> ps_return True
               | Some (PDict y std) \<Rightarrow>
                   (case map_of std ''AuthEvent'' of
                      None \<Rightarrow> ps_return True
                    | Some (PName a) \<Rightarrow> ps_return (b \<or> a = ''DocOpen'')
                    | Some _ \<Rightarrow> wrong_type ''AuthEvent'')
               | Some _ \<Rightarrow> wrong_type ''StdCF'')
          | Some _ \<Rightarrow> wrong_type ''CF'')
       else ps_return True))"

section \<open>Hashes, ciphers and loops\<close>

text \<open>
  \<^verbatim>\<open>16 string dup /MD5Encode filter ...\<close>: the digest is written into a fresh string
  of 16 bytes (32 for \<^verbatim>\<open>sha256\<close>), and that string is the result.
\<close>

definition fill_string :: "nat \<Rightarrow> bytes \<Rightarrow> bytes" where
  "fill_string n d = take n d @ replicate (n - length d) 0"

definition md5 :: "caps \<Rightarrow> bytes \<Rightarrow> bytes" where
  "md5 c s = fill_string 16 (MD5 c s)"

definition sha256 :: "caps \<Rightarrow> bytes \<Rightarrow> bytes" where
  "sha256 c s = fill_string 32 (SHA256 c s)"

text \<open>
  \<^verbatim>\<open><ciphertext> <key> arc4decode <plaintext>\<close>: an empty ciphertext is returned as it
  is; otherwise the filter's output is read into a string as long as the ciphertext.
\<close>

definition arc4decode :: "caps \<Rightarrow> bytes \<Rightarrow> bytes \<Rightarrow> bytes" where
  "arc4decode c ct key = (if length ct = 0 then ct else take (length ct) (RC4 c key ct))"

text \<open>
  \<^verbatim>\<open><ciphertext> <dict> aesdecode <plaintext>\<close>, with the key and the padding flag of
  the dictionary. Modelled from the spec: the \<^verbatim>\<open>AESDecode\<close> filter is not in this
  file; by section 4.3 the 16 bytes that the callers put in front of the data are the
  initialisation vector of \<open>AES_CBC_decrypt\<close>.
\<close>

definition aesdecode :: "caps \<Rightarrow> bytes \<Rightarrow> bytes \<Rightarrow> bool \<Rightarrow> bytes" where
  "aesdecode c ct key padding =
     (if length ct = 0 then ct
      else take (length ct) (AES_CBC_decrypt c key (take 16 ct) (drop 16 ct) padding))"

text \<open>\<^verbatim>\<open>first 1 last { body } for\<close> over a state, and \<^verbatim>\<open>n { body } repeat\<close>.\<close>

fun ps_for :: "int list \<Rightarrow> (int \<Rightarrow> 's \<Rightarrow> 's ps) \<Rightarrow> 's \<Rightarrow> 's ps" where
  "ps_for [] body s = ps_return s"
| "ps_for (i # is) body s = ps_bind (body i s) (ps_for is body)"

primrec ps_repeat :: "nat \<Rightarrow> ('s \<Rightarrow> 's ps) \<Rightarrow> 's \<Rightarrow> 's ps" where
  "ps_repeat 0 body s = ps_return s"
| "ps_repeat (Suc n) body s = ps_bind (body s) (ps_repeat n body)"

definition pdf_padding_string :: bytes where
  "pdf_padding_string =
     [0x28, 0xbf, 0x4e, 0x5e, 0x4e, 0x75, 0x8a, 0x41,
      0x64, 0x00, 0x4e, 0x56, 0xff, 0xfa, 0x01, 0x08,
      0x2e, 0x2e, 0x00, 0xb6, 0xd0, 0x68, 0x3e, 0x80,
      0x2f, 0x0c, 0xa9, 0xfe, 0x64, 0x53, 0x69, 0x7a]"

definition pdf_pad_key :: "bytes \<Rightarrow> bytes" where
  "pdf_pad_key key =
     (let k = (if 32 < length key then take 32 key else key)
      in k @ take (32 - length k) pdf_padding_string)"

text \<open>
  \<^verbatim>\<open><iter-num> <key> pdf_xorbytes <xored-key>\<close>: a new string as long as the key is
  filled byte by byte; \<^verbatim>\<open>put\<close> raises \<^verbatim>\<open>rangecheck\<close> on a value that is not a
  byte.
\<close>

definition xorbytes_step :: "int \<Rightarrow> bytes \<Rightarrow> int \<Rightarrow> bytes \<Rightarrow> bytes ps" where
  "xorbytes_step iter key j new =
     (let b = uint (key ! nat j) XOR iter
      in if 0 \<le> b \<and> b \<le> 255 then ps_return (new[nat j := word_of_int b])
         else signalerror RangeCheck)"

definition pdf_xorbytes :: "int \<Rightarrow> bytes \<Rightarrow> bytes ps" where
  "pdf_xorbytes iter key =
     ps_for [0 .. int (length key) - 1] (xorbytes_step iter key) (replicate (length key) 0)"

text \<open>\<^verbatim>\<open>pdf_key_length\<close>: the length of the encryption key in bytes.\<close>

definition pdf_key_length :: "pdfctx \<Rightarrow> int ps" where
  "pdf_key_length ctx =
     ps_bind (Encrypt ctx) (\<lambda>enc.
       if ps_eq (case map_of enc ''V'' of None \<Rightarrow> PInt 0 | Some v \<Rightarrow> v) (PInt 1)
       then ps_return 5
       else (case map_of enc ''Length'' of
               Some l \<Rightarrow> ps_bind (as_int l) (\<lambda>l. ps_return (drop_bit 3 l))
             | None \<Rightarrow> ps_return 5))"

definition md5_trunk :: "pdfctx \<Rightarrow> caps \<Rightarrow> bytes \<Rightarrow> bytes ps" where
  "md5_trunk ctx c s = ps_bind (pdf_key_length ctx) (\<lambda>n. getinterval (md5 c s) 0 n)"

text \<open>The low byte of an integer shifted right by \<open>k\<close> bits: \<^verbatim>\<open>-k bitshift 255 and\<close>.\<close>

definition byte_at :: "nat \<Rightarrow> int \<Rightarrow> byte" where
  "byte_at k i = word_of_int (drop_bit k i AND 255)"

text \<open>\<^verbatim>\<open>0 oget\<close> on the value of the trailer's \<^verbatim>\<open>/ID\<close>.\<close>

definition get0 :: "psobj \<Rightarrow> psobj ps" where
  "get0 v =
     (case v of
        PArray xs \<Rightarrow> (case xs of [] \<Rightarrow> signalerror RangeCheck | x # _ \<Rightarrow> ps_return x)
      | PStr s \<Rightarrow> (case s of [] \<Rightarrow> signalerror RangeCheck | x # _ \<Rightarrow> ps_return (PInt (uint x)))
      | PDict x d \<Rightarrow> signalerror Undefined
      | _ \<Rightarrow> signalerror TypeCheck)"

text \<open>
  \<^verbatim>\<open>Trailer /ID knownoget { 0 oget } { () ... pdfformaterror ... } ifelse\<close>, as it stands
  in \<^verbatim>\<open>pdf_compute_encryption_key\<close> and in \<^verbatim>\<open>pdf_gen_user_password_R3\<close>.
\<close>

definition trailer_id0 :: "pdfctx \<Rightarrow> psobj ps" where
  "trailer_id0 ctx =
     (case map_of (Trailer ctx) ''ID'' of
        Some v \<Rightarrow> get0 v
      | None \<Rightarrow>
          ps_then (pdfformaterror
            ''   **** Error: ID key in the trailer is required for encrypted files.\<newline>'')
         (ps_then (pdfformaterror
            ''               File may not be possible to decrypt.\<newline>'')
            (ps_return (PStr []))))"

section \<open>Key derivation for revisions 2 to 4\<close>

text \<open>
  Algorithm 3.2. The working string is the padded password, \<^verbatim>\<open>/O\<close>, \<^verbatim>\<open>/P\<close> as four
  bytes and the first \<^verbatim>\<open>/ID\<close> string; the test \<^verbatim>\<open>4 ge\<close> inside the branch
  \<^verbatim>\<open>3 ge\<close> guards the four bytes 0xFF.
\<close>

definition encrypt_metadata_false :: "dict \<Rightarrow> bool ps" where
  "encrypt_metadata_false enc =
     ps_bind (as_bool (case map_of enc ''EncryptMetadata'' of None \<Rightarrow> PBool True | Some v \<Rightarrow> v))
       (\<lambda>b. ps_return (\<not> b))"

definition pdf_compute_encryption_key :: "pdfctx \<Rightarrow> caps \<Rightarrow> bytes \<Rightarrow> bytes ps" where
  "pdf_compute_encryption_key ctx c password =
     (let padded = pdf_pad_key password in
      ps_bind (Encrypt ctx) (\<lambda>enc.
      ps_bind (oget enc ''O'') (\<lambda>ov.
      ps_bind (oget enc ''P'') (\<lambda>pv.
      ps_bind (as_int pv) (\<lambda>p.
      ps_bind (trailer_id0 ctx) (\<lambda>idv.
      ps_bind (as_str idv) (\<lambda>id0.
      ps_bind (as_str ov) (\<lambda>ostr.
      (let work = padded @ ostr @ [byte_at 0 p, byte_at 8 p, byte_at 16 p, byte_at 24 p] @ id0 in
       ps_bind (oget enc ''R'') (\<lambda>rv.
       ps_bind (as_int rv) (\<lambda>r.
         if 3 \<le> r then
           ps_bind (if 4 \<le> r
                    then ps_bind (encrypt_metadata_false enc) (\<lambda>f.
                           ps_return (if f then work @ [0xff, 0xff, 0xff, 0xff] else work))
                    else ps_return work) (\<lambda>work'.
           ps_bind (md5_trunk ctx c work') (ps_repeat 50 (md5_trunk ctx c)))
         else md5_trunk ctx c work)))))))))))"

section \<open>Password checks for revisions 2 to 4\<close>

definition pdf_gen_user_password_R2 :: "caps \<Rightarrow> bytes \<Rightarrow> bytes" where
  "pdf_gen_user_password_R2 c filekey = arc4decode c pdf_padding_string filekey"

text \<open>
  Algorithm 3.5. The body of \<^verbatim>\<open>1 1 19 { 2 index pdf_xorbytes arc4decode } for\<close> takes
  the round number and the string under it on the stack.
\<close>

definition xor_round :: "caps \<Rightarrow> bytes \<Rightarrow> int \<Rightarrow> bytes \<Rightarrow> bytes ps" where
  "xor_round c key i u = ps_bind (pdf_xorbytes i key) (\<lambda>k. ps_return (arc4decode c u k))"

definition pdf_gen_user_password_R3 :: "pdfctx \<Rightarrow> caps \<Rightarrow> bytes \<Rightarrow> bytes ps" where
  "pdf_gen_user_password_R3 ctx c filekey =
     ps_bind (trailer_id0 ctx) (\<lambda>idv.
     ps_bind (as_str idv) (\<lambda>id0.
       ps_for [1 .. 19] (xor_round c filekey)
         (arc4decode c (md5 c (pdf_padding_string @ id0)) filekey)))"

definition pdf_gen_user_password :: "pdfctx \<Rightarrow> caps \<Rightarrow> bytes \<Rightarrow> (bytes \<times> bytes) ps" where
  "pdf_gen_user_password ctx c password =
     ps_bind (pdf_compute_encryption_key ctx c password) (\<lambda>filekey.
     ps_bind (Encrypt ctx) (\<lambda>enc.
     ps_bind (oget enc ''R'') (\<lambda>r.
       if ps_eq r (PInt 2) then ps_return (filekey, pdf_gen_user_password_R2 c filekey)
       else if ps_eq r (PInt 3) \<or> ps_eq r (PInt 4)
       then ps_bind (pdf_gen_user_password_R3 ctx c filekey) (\<lambda>u. ps_return (filekey, u))
       else signalerror Undefined)))"

text \<open>
  Algorithm 3.6; \<open>Some filekey\<close> stands for \<^verbatim>\<open><filekey> true\<close> and \<open>None\<close> for
  \<^verbatim>\<open>false\<close>. The generated string is compared with as many leading bytes of
  \<^verbatim>\<open>/U\<close>.
\<close>

definition pdf_check_pre_r5_user_password :: "pdfctx \<Rightarrow> caps \<Rightarrow> bytes \<Rightarrow> bytes option ps" where
  "pdf_check_pre_r5_user_password ctx c password =
     ps_bind (pdf_gen_user_password ctx c password) (\<lambda>(filekey, u).
     ps_bind (Encrypt ctx) (\<lambda>enc.
     ps_bind (oget enc ''U'') (\<lambda>uv.
     ps_bind (ps_getinterval uv 0 (int (length u))) (\<lambda>u0.
       ps_return (if ps_eq (PStr u) u0 then Some filekey else None)))))"

definition pdf_owner_key :: "pdfctx \<Rightarrow> caps \<Rightarrow> bytes \<Rightarrow> bytes ps" where
  "pdf_owner_key ctx c password =
     ps_bind (md5_trunk ctx c (pdf_pad_key password)) (\<lambda>k.
     ps_bind (Encrypt ctx) (\<lambda>enc.
     ps_bind (oget enc ''R'') (\<lambda>rv.
     ps_bind (as_int rv) (\<lambda>r.
       if 3 \<le> r then ps_repeat 50 (md5_trunk ctx c) k else ps_return k))))"

definition pdf_check_pre_r5_owner_password :: "pdfctx \<Rightarrow> caps \<Rightarrow> bytes \<Rightarrow> bytes option ps" where
  "pdf_check_pre_r5_owner_password ctx c password =
     ps_bind (pdf_owner_key ctx c password) (\<lambda>okey.
     ps_bind (Encrypt ctx) (\<lambda>enc.
     ps_bind (oget enc ''O'') (\<lambda>ov.
     ps_bind (as_str ov) (\<lambda>ostr.
     (let d = arc4decode c ostr okey in
      ps_bind (oget enc ''R'') (\<lambda>rv.
      ps_bind (as_int rv) (\<lambda>r.
      ps_bind (if 3 \<le> r then ps_for [1 .. 19] (xor_round c okey) d else ps_return d)
        (pdf_check_pre_r5_user_password ctx c))))))))"

section \<open>Password check for revision 5\<close>

definition str_interval :: "psobj \<Rightarrow> int \<Rightarrow> int \<Rightarrow> bytes ps" where
  "str_interval v i n = ps_bind (ps_getinterval v i n) as_str"

definition adb :: bytes where
  "adb = [0x61, 0x64, 0x62]"

text \<open>
  Step 5 of Algorithm 3.2a, lines 675 to 692: the file key on the stack decrypts
  \<^verbatim>\<open>/Perms\<close> behind 16 zero bytes, and a marker other than \<^verbatim>\<open>(adb)\<close> ends in
  \<^verbatim>\<open>rangecheck\<close>, which the spec calls IntegrityError.
\<close>

definition perms_check :: "caps \<Rightarrow> dict \<Rightarrow> bytes \<Rightarrow> bytes option ps" where
  "perms_check c enc filekey =
     ps_bind (oget enc ''Perms'') (\<lambda>pv.
     ps_bind (as_str pv) (\<lambda>perms.
     ps_bind (getinterval (aesdecode c (replicate 16 0 @ perms) filekey False) 9 3) (\<lambda>marker.
       if marker \<noteq> adb then
         ps_then (pdfformaterror ''   **** Error: Failed to decrypt Perms string.\<newline>'')
        (ps_then (pdfformaterror ''               Cannot decrypt PDF file.\<newline>'')
        (ps_then printProducer
           (signalerror RangeCheck)))
       else ps_return (Some filekey))))"

definition r5_password :: "caps \<Rightarrow> bytes \<Rightarrow> bytes" where
  "r5_password c password =
     (let p = (case saslprep c of Some f \<Rightarrow> f password | None \<Rightarrow> password)
      in if 127 < length p then take 127 p else p)"

definition pdf_check_r5_password :: "pdfctx \<Rightarrow> caps \<Rightarrow> bytes \<Rightarrow> bytes option ps" where
  "pdf_check_r5_password ctx c password =
     (let Password = r5_password c password in
      ps_bind (Encrypt ctx) (\<lambda>enc.
      ps_bind (oget enc ''O'') (\<lambda>ov.
      ps_bind (oget enc ''U'') (\<lambda>uv.
      ps_bind (str_interval ov 32 8) (\<lambda>o_vs.
      ps_bind (str_interval uv 0 48) (\<lambda>u48.
      ps_bind (ps_getinterval ov 0 32) (\<lambda>o_hash.
      ps_bind
        (if ps_eq (PStr (sha256 c (Password @ o_vs @ u48))) o_hash then
           ps_bind (str_interval ov 40 8) (\<lambda>o_ks.
           ps_bind (str_interval uv 0 48) (\<lambda>u48'.
           ps_bind (oget enc ''OE'') (\<lambda>oev.
           ps_bind (as_str oev) (\<lambda>oe.
             ps_return (Some (aesdecode c (replicate 16 0 @ oe)
                               (sha256 c (Password @ o_ks @ u48')) False))))))
         else
           ps_bind (str_interval uv 32 8) (\<lambda>u_vs.
           ps_bind (ps_getinterval uv 0 32) (\<lambda>u_hash.
             if ps_eq (PStr (sha256 c (Password @ u_vs))) u_hash then
               ps_bind (str_interval uv 40 8) (\<lambda>u_ks.
               ps_bind (oget enc ''UE'') (\<lambda>uev.
               ps_bind (as_str uev) (\<lambda>ue.
                 ps_return (Some (aesdecode c (replicate 16 0 @ ue)
                                   (sha256 c (Password @ u_ks)) False)))))
             else ps_return None)))
        (\<lambda>found.
           case found of
             Some filekey \<Rightarrow> perms_check c enc filekey
           | None \<Rightarrow> ps_return None))))))))"

section \<open>Password check for revision 6\<close>

text \<open>
  Modelled from the spec: \<^verbatim>\<open>check_r6_password\<close> is an operator that this file only
  calls (\<^verbatim>\<open><password> <Encrypt> check_r6_password\<close>). Section 4.3 gives revisions 5 and
  6 one row of checks and one \<^verbatim>\<open>/Perms\<close> check, and section 4.2 puts the injected
  \<open>hardenedHash password salt extra\<close> in the place of SHA-256 for revision 6: the user
  check compares \<open>hardenedHash password U[32:40] []\<close> with \<open>U[0:32]\<close> and decrypts
  \<^verbatim>\<open>/UE\<close>; the owner check uses \<open>O\<close> with the extra \<open>U[0:48]\<close> and decrypts
  \<^verbatim>\<open>/OE\<close>.
\<close>

definition check_r6_password :: "caps \<Rightarrow> bytes \<Rightarrow> dict \<Rightarrow> bytes option ps" where
  "check_r6_password c password enc =
     ps_bind (oget enc ''O'') (\<lambda>ov.
     ps_bind (oget enc ''U'') (\<lambda>uv.
     ps_bind (str_interval uv 32 8) (\<lambda>u_vs.
     ps_bind (str_interval uv 40 8) (\<lambda>u_ks.
     ps_bind (str_interval uv 0 32) (\<lambda>u_hash.
     ps_bind (str_interval uv 0 48) (\<lambda>u48.
     ps_bind (str_interval ov 32 8) (\<lambda>o_vs.
     ps_bind (str_interval ov 40 8) (\<lambda>o_ks.
     ps_bind (str_interval ov 0 32) (\<lambda>o_hash.
       if hardenedHash c password u_vs [] = u_hash then
         ps_bind (oget enc ''UE'') (\<lambda>uev.
         ps_bind (as_str uev) (\<lambda>ue.
           perms_check c enc
             (AES_CBC_decrypt c (hardenedHash c password u_ks []) (replicate 16 0) ue False)))
       else if hardenedHash c password o_vs u48 = o_hash then
         ps_bind (oget enc ''OE'') (\<lambda>oev.
         ps_bind (as_str oev) (\<lambda>oe.
           perms_check c enc
             (AES_CBC_decrypt c (hardenedHash c password o_ks u48) (replicate 16 0) oe False)))
       else ps_return None)))))))))"

section \<open>\<^verbatim>\<open>pdf_check_password\<close> and \<^verbatim>\<open>pdf_process_Encrypt\<close>\<close>

fun digits :: "nat \<Rightarrow> string" where
  "digits n =
     (if n < 10 then [char_of (48 + n)]
      else digits (n div 10) @ [char_of (48 + n mod 10)])"

text \<open>\<^verbatim>\<open>=string cvs\<close> on an integer.\<close>

definition cvs :: "int \<Rightarrow> string" where
  "cvs i = (if i < 0 then ''-'' @ digits (nat (- i)) else digits (nat i))"

text \<open>
  A failed check of a revision 5 or 6 password is tried once more on the password
  converted by \<^verbatim>\<open>.locale_to_utf8\<close>, where that operator exists.
\<close>

definition retry_locale :: "caps \<Rightarrow> (bytes \<Rightarrow> bytes option ps) \<Rightarrow> bytes \<Rightarrow> bytes option ps" where
  "retry_locale c check password =
     ps_bind (check password) (\<lambda>r.
       case r of
         Some filekey \<Rightarrow> ps_return (Some filekey)
       | None \<Rightarrow>
           (case locale_to_utf8 c of
              Some conv \<Rightarrow> check (conv password)
            | None \<Rightarrow> ps_return None))"

definition pdf_check_password :: "pdfctx \<Rightarrow> caps \<Rightarrow> bytes \<Rightarrow> bytes option ps" where
  "pdf_check_password ctx c password =
     ps_bind (Encrypt ctx) (\<lambda>enc.
     ps_bind (oget enc ''R'') (\<lambda>rv.
     ps_bind (as_int rv) (\<lambda>r.
       if 2 \<le> r \<and> r \<le> 4 then
         ps_bind (pdf_check_pre_r5_user_password ctx c password) (\<lambda>u.
           case u of
             Some filekey \<Rightarrow> ps_return (Some filekey)
           | None \<Rightarrow> pdf_check_pre_r5_owner_password ctx c password)
       else if r = 5 then retry_locale c (pdf_check_r5_password ctx c) password
       else if r = 6 then retry_locale c (\<lambda>p. check_r6_password c p enc) password
       else
         ps_then (pdfformatwarning
           (''   **** Warning: This file uses an unknown standard security handler revision: ''
            @ cvs r @ ''\<newline>''))
        (ps_then (pdfformaterror ''                 Cannot decrypt PDF file.\<newline>'')
        (ps_then printProducer
           (signalerror Undefined))))))"

text \<open>\<^verbatim>\<open>contains_non_ascii\<close> and the warnings of lines 874 to 889.\<close>

definition contains_non_ascii :: "bytes \<Rightarrow> bool" where
  "contains_non_ascii s = (\<exists>b \<in> set s. 128 \<le> b)"

definition non_ascii_warning :: "caps \<Rightarrow> bytes \<Rightarrow> unit ps" where
  "non_ascii_warning c password =
     (if contains_non_ascii password then
        (case saslprep c of
           None \<Rightarrow> pdfformaterror
             (''   **** WARNING: Ghostscript was configured without libidn,\<newline>'' @
              ''   **** so non-ASCII passwords aren't supported!\<newline>'')
         | Some _ \<Rightarrow>
             (case locale_to_utf8 c of
                None \<Rightarrow> pdfformaterror
                  (''   **** WARNING: Ghostscript was configured without iconv,\<newline>'' @
                   ''   **** so non-ASCII passwords aren't supported!\<newline>'')
              | Some _ \<Rightarrow> ps_return ()))
      else ps_return ())"

text \<open>
  Lines 846 to 897: the empty password is checked; where it fails and
  \<^verbatim>\<open>PDFPassword\<close> is defined, that password is checked.
\<close>

definition verify_passwords :: "pdfctx \<Rightarrow> caps \<Rightarrow> pdfctx ps" where
  "verify_passwords ctx c =
     ps_bind (pdf_check_password ctx c []) (\<lambda>r.
       case r of
         Some filekey \<Rightarrow> ps_return (ctx\<lparr>FileKey := Some filekey\<rparr>)
       | None \<Rightarrow>
           (case PDFPassword ctx of
              Some password \<Rightarrow>
                ps_bind (pdf_check_password ctx c password) (\<lambda>r'.
                  case r' of
                    Some filekey \<Rightarrow> ps_return (ctx\<lparr>FileKey := Some filekey\<rparr>)
                  | None \<Rightarrow>
                      ps_then (pdfformaterror ''   **** Error: Password did not work.\<newline>'')
                     (ps_then (pdfformaterror ''               Cannot decrypt PDF file.\<newline>'')
                     (ps_then (non_ascii_warning c password)
                        (signalerror InvalidFileAccess))))
            | None \<Rightarrow>
                ps_then (pdfformaterror ''   **** This file requires a password for access.\<newline>'')
                  (signalerror InvalidFileAccess)))"

definition identity_warning :: "unit ps" where
  "identity_warning =
     ps_then (pdfformatwarning
       ''   **** This file has an Encryption dictionary, but both the StmF and StrF entries\<newline>'')
    (ps_then (pdfformatwarning
       ''   **** are /Identity, and AuthEvent allows the document to be opened. It is possible\<newline>'')
    (ps_then (pdfformatwarning
       ''   **** that embedded streams may still use encryption, if the file fails to process\<newline>'')
       (pdfformatwarning
       ''   **** you may need to supply a User or Owner password by setting -sPDFPassword=\<newline>'')))"

definition pdf_process_Encrypt :: "pdfctx \<Rightarrow> caps \<Rightarrow> pdfctx ps" where
  "pdf_process_Encrypt ctx c =
     ps_bind (Encrypt ctx) (\<lambda>enc.
     ps_bind (oget enc ''Filter'') (\<lambda>flt.
     ps_then
       (if \<not> ps_eq flt (PName ''Standard'') then
          ps_then (pdfformatwarning
            ''   **** Warning: This file uses an unknown security handler.\<newline>'')
         (ps_then (pdfformaterror ''                 Cannot decrypt PDF file.\<newline>'')
         (ps_then printProducer
            (signalerror Undefined)))
        else ps_return ())
       (ps_bind (require_password enc) (\<lambda>required.
          if required \<or> PDFPassword ctx \<noteq> None then verify_passwords ctx c
          else ps_then identity_warning (ps_return ctx)))))"

section \<open>Object keys and object resolution\<close>

text \<open>
  \<^verbatim>\<open>exch oget\<close> with the value of \<^verbatim>\<open>/StmF\<close> as the key: a string key stands for the
  name with the same characters, and no other object is a key of the model's dictionaries.
\<close>

definition oget_obj :: "dict \<Rightarrow> psobj \<Rightarrow> psobj ps" where
  "oget_obj d k =
     (case k of
        PName n \<Rightarrow> oget d n
      | PStr s \<Rightarrow> oget d (map (\<lambda>b. char_of (unat b)) s)
      | PNull \<Rightarrow> signalerror TypeCheck
      | _ \<Rightarrow> signalerror Undefined)"

definition sAlT :: bytes where
  "sAlT = [0x73, 0x41, 0x6c, 0x54]"

text \<open>Lines 929 to 945: the bytes added for the AES cipher, decided by \<^verbatim>\<open>/StmF\<close>.\<close>

definition aes_salt :: "dict \<Rightarrow> bytes ps" where
  "aes_salt enc =
     (case map_of enc ''StmF'' of
        None \<Rightarrow> ps_return []
      | Some f \<Rightarrow>
          if ps_eq f (PName ''Identity'') then ps_return []
          else (case map_of enc ''CF'' of
                  None \<Rightarrow> ps_return []
                | Some cfv \<Rightarrow>
                    ps_bind (as_dict cfv) (\<lambda>cf.
                    ps_bind (oget_obj cf f) (\<lambda>fv.
                    ps_bind (as_dict fv) (\<lambda>fd.
                    ps_bind (oget fd ''CFM'') (\<lambda>cfm.
                      ps_return (if ps_eq cfm (PName ''AESV2'') then sAlT else [])))))))"

definition file_key :: "pdfctx \<Rightarrow> bytes ps" where
  "file_key ctx = (case FileKey ctx of None \<Rightarrow> signalerror Undefined | Some k \<Rightarrow> ps_return k)"

definition computeobjkey :: "pdfctx \<Rightarrow> caps \<Rightarrow> int \<Rightarrow> int \<Rightarrow> bytes ps" where
  "computeobjkey ctx c objnum gen =
     ps_bind (Encrypt ctx) (\<lambda>enc.
     ps_bind (oget enc ''V'') (\<lambda>v.
     ps_bind (file_key ctx) (\<lambda>fk.
       if ps_eq v (PInt 5) then ps_return fk
       else
         (let buf = fk @ [byte_at 0 objnum, byte_at 8 objnum, byte_at 16 objnum]
                       @ [byte_at 0 gen, byte_at 8 gen]
          in ps_bind (aes_salt enc) (\<lambda>salt.
             (let h = md5 c (buf @ salt)
              in getinterval h 0 (min (int (length fk) + 5) (int (length h)))))))))"

text \<open>
  \<^verbatim>\<open>pdf_run_resolve\<close>. The tokenizer (\<^verbatim>\<open>.decpdfrun\<close>, \<^verbatim>\<open>.pdfrun\<close>) is the
  parameter \<open>scan\<close>: it gets the key that decrypts the object's strings, or \<open>None\<close> in a
  file that is not encrypted, and leaves the object on the stack. \<^verbatim>\<open>put\<close> stores the key
  in the object's dictionary.
\<close>

definition put_StreamKey :: "bool \<Rightarrow> dict \<Rightarrow> bytes \<Rightarrow> psobj" where
  "put_StreamKey x d key = PDict x (AList.update ''StreamKey'' (PStr key) d)"

definition pdf_run_resolve ::
  "pdfctx \<Rightarrow> caps \<Rightarrow> (bytes option \<Rightarrow> psobj ps) \<Rightarrow> int \<Rightarrow> int \<Rightarrow> psobj ps" where
  "pdf_run_resolve ctx c scan objnum gen =
     (case FileKey ctx of
        None \<Rightarrow> scan None
      | Some _ \<Rightarrow>
          ps_bind (computeobjkey ctx c objnum gen) (\<lambda>key.
          ps_bind (scan (Some key)) (\<lambda>obj.
            case obj of
              PDict x d \<Rightarrow>
                if \<not> x then ps_return obj
                else
                  ps_bind (Encrypt ctx) (\<lambda>enc.
                  ps_bind (oget enc ''R'') (\<lambda>rv.
                  ps_bind (as_int rv) (\<lambda>r.
                    if r < 3 then ps_return (put_StreamKey x d key)
                    else
                      ps_bind (encrypt_metadata_false enc) (\<lambda>emf.
                        if emf \<and> ps_eq (case map_of d ''Type'' of None \<Rightarrow> PNull | Some t \<Rightarrow> t)
                                       (PName ''Metadata'')
                        then ps_return obj
                        else if r < 4 then ps_return (put_StreamKey x d key)
                        else if ps_eq (case map_of enc ''StmF'' of
                                         None \<Rightarrow> PName ''Identity'' | Some f \<Rightarrow> f)
                                      (PName ''Identity'')
                        then ps_return obj
                        else ps_return (put_StreamKey x d key)))))
            | _ \<Rightarrow> ps_return obj)))"

section \<open>Statements of the specification\<close>

text \<open>
  The specification's reading of the password-requirement test: no password is needed
  when V is at least 4, both filters are Identity and StdCF has the AuthEvent DocOpen.
\<close>

definition spec_no_password_needed :: "dict \<Rightarrow> bool" where
  "spec_no_password_needed enc =
     ((\<exists>v. map_of enc ''V'' = Some (PInt v) \<and> 4 \<le> v) \<and>
      \<not> not_Identity enc ''StmF'' \<and> \<not> not_Identity enc ''StrF'' \<and>
      (\<exists>x cf y std. map_of enc ''CF'' = Some (PDict x cf) \<and>
         map_of cf ''StdCF'' = Some (PDict y std) \<and>
         map_of std ''AuthEvent'' = Some (PName ''DocOpen'')))"

text \<open>An encryption dictionary with V 4, no StmF, no StrF and the AuthEvent DocOpen.\<close>

definition docopen_encrypt :: dict where
  "docopen_encrypt =
     [(''Filter'', PName ''Standard''), (''V'', PInt 4), (''R'', PInt 4),
      (''CF'', PDict False [(''StdCF'', PDict False [(''AuthEvent'', PName ''DocOpen'')])])]"

text \<open>The \<open>n\<close> low-order bytes of an integer, least significant first.\<close>

definition le_bytes :: "nat \<Rightarrow> int \<Rightarrow> bytes" where
  "le_bytes n i = map (\<lambda>k. word_of_int (i div 256 ^ k)) [0..<n]"

text \<open>
  Section 4.2, steps 4 and 5: the buffer is hashed; for R of at least 3 the first
  \<open>n\<close> bytes of the previous hash are hashed again 50 times; the key is the first
  \<open>n\<close> bytes.
\<close>

primrec md5_rounds :: "caps \<Rightarrow> nat \<Rightarrow> nat \<Rightarrow> bytes \<Rightarrow> bytes" where
  "md5_rounds c n 0 k = k"
| "md5_rounds c n (Suc m) k = md5_rounds c n m (take n (md5 c k))"

definition spec_file_key :: "caps \<Rightarrow> nat \<Rightarrow> int \<Rightarrow> bytes \<Rightarrow> bytes" where
  "spec_file_key c n r buf =
     (if 3 \<le> r then md5_rounds c n 50 (take n (md5 c buf)) else take n (md5 c buf))"

text \<open>
  The user string of revisions 3 and 4 as section 4.3 writes it:
  \<open>xorBytes(buf, key, i)[j] = buf[j] XOR key[j] XOR i\<close>, and each round is
  \<open>u = RC4_decrypt(xorBytes(u, fileKey, i), fileKey)\<close>, the data first and the key second.
\<close>

definition spec_xorBytes :: "bytes \<Rightarrow> bytes \<Rightarrow> int \<Rightarrow> bytes" where
  "spec_xorBytes buf key i = map (\<lambda>(b, k). b XOR k XOR word_of_int i) (zip buf key)"

definition spec_user_string_R3 :: "caps \<Rightarrow> bytes \<Rightarrow> bytes \<Rightarrow> bytes" where
  "spec_user_string_R3 c id0 fileKey =
     foldl (\<lambda>u i. RC4 c fileKey (spec_xorBytes u fileKey i))
       (RC4 c fileKey (md5 c (pdf_padding_string @ id0))) [1 .. 19]"

text \<open>
  The user string as the code computes it: in round \<open>i\<close> the key is the file key with
  every byte XORed with \<open>i\<close>, and the data is the string of the round before.
\<close>

definition user_string_R3 :: "caps \<Rightarrow> bytes \<Rightarrow> bytes \<Rightarrow> bytes" where
  "user_string_R3 c id0 fileKey =
     foldl (\<lambda>u i. RC4 c (map (\<lambda>k. k XOR word_of_int i) fileKey) u)
       (RC4 c fileKey (md5 c (pdf_padding_string @ id0))) [1 .. 19]"

text \<open>
  Section 4.1: the crypt filter method of \<^verbatim>\<open>/StmF\<close> or \<^verbatim>\<open>/StrF\<close> is found through
  \<^verbatim>\<open>/CF\<close>; an absent or Identity filter name has the method Identity. \<open>None\<close>: the
  name does not resolve.
\<close>

definition spec_cfm :: "dict \<Rightarrow> string \<Rightarrow> psobj option" where
  "spec_cfm enc k =
     (case map_of enc k of
        None \<Rightarrow> Some (PName ''Identity'')
      | Some (PName f) \<Rightarrow>
          if f = ''Identity'' then Some (PName ''Identity'')
          else (case map_of enc ''CF'' of
                  Some (PDict x cf) \<Rightarrow>
                    (case map_of cf f of
                       Some (PDict y fd) \<Rightarrow> map_of fd ''CFM''
                     | _ \<Rightarrow> None)
                | _ \<Rightarrow> None)
      | _ \<Rightarrow> None)"

text \<open>
  Section 4.5: a resolved object is in the state StreamKeySet when its dictionary holds a
  \<^verbatim>\<open>/StreamKey\<close>, and NotEncrypted otherwise.
\<close>

definition stream_key :: "psobj \<Rightarrow> psobj option" where
  "stream_key obj = (case obj of PDict x d \<Rightarrow> map_of d ''StreamKey'' | _ \<Rightarrow> None)"

text \<open>
  Section 4.3: the candidate file key decrypts \<^verbatim>\<open>/Perms\<close> with AES-CBC, a zero
  initialisation vector and no padding; bytes 9 to 11 must be \<^verbatim>\<open>adb\<close>, and a mismatch
  raises IntegrityError, which is \<^verbatim>\<open>rangecheck\<close> in the code.
\<close>

definition spec_perms_verdict :: "caps \<Rightarrow> bytes \<Rightarrow> bytes \<Rightarrow> error + bytes option" where
  "spec_perms_verdict c fileKey perms =
     (if take 3 (drop 9 (AES_CBC_decrypt c fileKey (replicate 16 0) perms False)) = adb
      then Inr (Some fileKey) else Inl RangeCheck)"

text \<open>The context whose encryption dictionary \<open>enc\<close> has EncryptMetadata set to \<open>v\<close>.\<close>

definition set_EncryptMetadata :: "psobj \<Rightarrow> bool \<Rightarrow> dict \<Rightarrow> pdfctx \<Rightarrow> pdfctx" where
  "set_EncryptMetadata v x enc ctx =
     ctx\<lparr>Trailer := AList.update ''Encrypt''
            (PDict x (AList.update ''EncryptMetadata'' v enc)) (Trailer ctx)\<rparr>"

section \<open>A small instance\<close>

text \<open>
  The theorems below hold for every hash and cipher. To run them on concrete documents,
  this instance has a positional checksum in the place of the digests and a one-byte XOR
  stream in the place of the ciphers.
\<close>

definition checksum :: "bytes \<Rightarrow> byte" where
  "checksum s = foldr (\<lambda>x acc. x + 3 * acc) s 1"

definition demo_digest :: "nat \<Rightarrow> bytes \<Rightarrow> bytes" where
  "demo_digest n s =
     map (\<lambda>j. of_nat (j * j) + (if j = 0 then 1 else 2) * checksum s) [0..<n]"

definition demo_rc4 :: "bytes \<Rightarrow> bytes \<Rightarrow> bytes" where
  "demo_rc4 key data = map (\<lambda>b. b XOR checksum key) data"

definition demo_aes :: "bytes \<Rightarrow> bytes \<Rightarrow> bytes \<Rightarrow> bool \<Rightarrow> bytes" where
  "demo_aes key iv data padding = map (\<lambda>b. b XOR checksum (key @ iv)) data"

definition demo_hash :: "bytes \<Rightarrow> bytes \<Rightarrow> bytes \<Rightarrow> bytes" where
  "demo_hash password salt extra = demo_digest 32 (extra @ salt @ password)"

definition demo_caps :: caps where
  "demo_caps =
     \<lparr>MD5 = demo_digest 16, SHA256 = demo_digest 32, RC4 = demo_rc4,
      AES_CBC_decrypt = demo_aes, saslprep = None, locale_to_utf8 = None,
      hardenedHash = demo_hash\<rparr>"

text \<open>
  A revision 3 document with a 128-bit key and EncryptMetadata false; \<open>u\<close> is its
  \<^verbatim>\<open>/U\<close> string.
\<close>

definition r3_encrypt :: "bytes \<Rightarrow> dict" where
  "r3_encrypt u =
     [(''Filter'', PName ''Standard''), (''V'', PInt 2), (''R'', PInt 3), (''Length'', PInt 128),
      (''O'', PStr (replicate 32 7)), (''U'', PStr u), (''P'', PInt (- 44)),
      (''EncryptMetadata'', PBool False)]"

definition r3_ctx :: "bytes \<Rightarrow> pdfctx" where
  "r3_ctx u =
     \<lparr>Trailer = [(''Encrypt'', PDict False (r3_encrypt u)),
                 (''ID'', PArray [PStr [1, 2, 3, 4], PStr [5]])],
      PDFPassword = None, FileKey = None\<rparr>"

text \<open>
  A revision 2 document with a 40-bit key whose user password is the empty string, with
  and without the trailer's \<^verbatim>\<open>/ID\<close>.
\<close>

definition r2_encrypt :: "bytes \<Rightarrow> dict" where
  "r2_encrypt u =
     [(''Filter'', PName ''Standard''), (''V'', PInt 1), (''R'', PInt 2),
      (''O'', PStr (replicate 32 9)), (''U'', PStr u), (''P'', PInt (- 64))]"

definition r2_ctx :: "bytes \<Rightarrow> bytes option \<Rightarrow> pdfctx" where
  "r2_ctx u pw =
     \<lparr>Trailer = [(''Encrypt'', PDict False (r2_encrypt u)), (''ID'', PArray [PStr [8, 6, 4, 2]])],
      PDFPassword = pw, FileKey = None\<rparr>"

definition r2_key :: bytes where
  "r2_key = [217, 179, 182, 187, 194]"

definition r2_user_string :: bytes where
  "r2_user_string =
     [78, 217, 40, 56, 40, 19, 236, 39, 2, 102, 40, 48, 153, 156, 103, 110,
      72, 72, 102, 208, 182, 14, 88, 230, 73, 106, 207, 152, 2, 53, 15, 28]"

definition r3_key :: bytes where
  "r3_key = [103, 207, 210, 215, 222, 231, 242, 255, 14, 31, 50, 71, 94, 119, 146, 175]"

definition r3_user_string :: bytes where
  "r3_user_string = [10, 21, 24, 29, 36, 45, 56, 69, 84, 101, 120, 141, 164, 189, 216, 245]"

definition r3_spec_string :: bytes where
  "r3_spec_string =
     [109, 218, 202, 202, 250, 202, 202, 186, 90, 122, 74, 202, 250, 202, 74, 90]"

definition r2_noid_ctx :: pdfctx where
  "r2_noid_ctx =
     \<lparr>Trailer = [(''Encrypt'', PDict False (r2_encrypt r2_user_string))],
      PDFPassword = None, FileKey = None\<rparr>"

text \<open>
  A revision 4 document whose streams and strings use AESV2, the revision 3 document
  after its file key is established, and two stream objects as the tokenizer leaves them.
\<close>

definition r4_encrypt :: dict where
  "r4_encrypt =
     [(''Filter'', PName ''Standard''), (''V'', PInt 4), (''R'', PInt 4), (''Length'', PInt 128),
      (''O'', PStr (replicate 32 7)), (''U'', PStr (replicate 32 0)), (''P'', PInt (- 44)),
      (''CF'', PDict False [(''StdCF'', PDict False
          [(''CFM'', PName ''AESV2''), (''AuthEvent'', PName ''DocOpen''), (''Length'', PInt 16)])]),
      (''StmF'', PName ''StdCF''), (''StrF'', PName ''StdCF'')]"

definition r4_open_ctx :: pdfctx where
  "r4_open_ctx =
     \<lparr>Trailer = [(''Encrypt'', PDict False r4_encrypt), (''ID'', PArray [PStr [1, 2, 3, 4]])],
      PDFPassword = None, FileKey = Some r3_key\<rparr>"

definition r3_open_ctx :: pdfctx where
  "r3_open_ctx = (r3_ctx [])\<lparr>FileKey := Some r3_key\<rparr>"

definition metadata_stream :: psobj where
  "metadata_stream = PDict True [(''Type'', PName ''Metadata''), (''Subtype'', PName ''XML'')]"

definition image_stream :: psobj where
  "image_stream = PDict True [(''Type'', PName ''XObject''), (''Subtype'', PName ''Image'')]"

definition metadata_scan :: "bytes option \<Rightarrow> psobj ps" where
  "metadata_scan key = ps_return metadata_stream"

definition image_scan :: "bytes option \<Rightarrow> psobj ps" where
  "image_scan key = ps_return image_stream"

definition r4_object_key :: bytes where
  "r4_object_key = [69, 139, 142, 147, 154, 163, 174, 187, 202, 219, 238, 3, 26, 51, 78, 107]"

definition r3_object_key :: bytes where
  "r3_object_key =
     [27, 55, 58, 63, 70, 79, 90, 103, 118, 135, 154, 175, 198, 223, 250, 23]"

text \<open>
  A revision 5 document whose user password is the empty string, with its \<^verbatim>\<open>/Perms\<close>
  and with one byte of it changed; and a document whose filters are both Identity and
  whose AuthEvent is EFOpen.
\<close>

definition r5_user_entry :: bytes where
  "r5_user_entry =
     [212, 169, 172, 177, 184, 193, 204, 217, 232, 249, 12, 33, 56, 81, 108, 137,
      168, 201, 236, 17, 56, 97, 140, 185, 232, 25, 76, 129, 184, 241, 44, 105,
      21, 7, 3, 99, 5, 250, 18, 8, 9, 77, 31, 2, 13, 200, 15, 64]"

definition r5_encrypt :: "bytes \<Rightarrow> dict" where
  "r5_encrypt perms =
     [(''Filter'', PName ''Standard''), (''V'', PInt 5), (''R'', PInt 5), (''Length'', PInt 256),
      (''O'', PStr (replicate 48 3)), (''U'', PStr r5_user_entry),
      (''OE'', PStr (replicate 32 11)), (''UE'', PStr (replicate 32 5)),
      (''Perms'', PStr perms), (''P'', PInt (- 44))]"

definition r5_ctx :: "bytes \<Rightarrow> pdfctx" where
  "r5_ctx perms =
     \<lparr>Trailer = [(''Encrypt'', PDict False (r5_encrypt perms))],
      PDFPassword = None, FileKey = None\<rparr>"

definition r5_perms :: bytes where
  "r5_perms = [149, 190, 190, 190, 190, 190, 190, 190, 21, 32, 37, 35, 64, 67, 66, 69]"

definition r5_perms_corrupted :: bytes where
  "r5_perms_corrupted = [149, 190, 190, 190, 190, 190, 190, 190, 21, 32, 36, 35, 64, 67, 66, 69]"

definition identity_encrypt :: dict where
  "identity_encrypt =
     [(''Filter'', PName ''Standard''), (''V'', PInt 4), (''R'', PInt 4), (''Length'', PInt 128),
      (''O'', PStr (replicate 32 7)), (''U'', PStr (replicate 32 0)), (''P'', PInt (- 44)),
      (''CF'', PDict False [(''StdCF'', PDict False
          [(''CFM'', PName ''AESV2''), (''AuthEvent'', PName ''EFOpen'')])]),
      (''StmF'', PName ''Identity''), (''StrF'', PName ''Identity'')]"

definition identity_ctx :: "bytes option \<Rightarrow> pdfctx" where
  "identity_ctx pw =
     \<lparr>Trailer = [(''Encrypt'', PDict False identity_encrypt), (''ID'', PArray [PStr [1, 2, 3, 4]])],
      PDFPassword = pw, FileKey = None\<rparr>"

section \<open>Basic facts\<close>

lemma ps_bind_return [simp]: "ps_bind (ps_return x) f = f x"
  by (simp add: ps_bind_def ps_return_def)

lemma ps_bind_error [simp]: "ps_bind (signalerror e) f = signalerror e"
  by (simp add: ps_bind_def signalerror_def)

lemma ps_bind_Inr: "ps_bind (l, Inr x) f = (l @ fst (f x), snd (f x))"
  by (simp add: ps_bind_def split: prod.splits)

lemma snd_return [simp]: "snd (ps_return x) = Inr x"
  by (simp add: ps_return_def)

lemma snd_signalerror [simp]: "snd (signalerror e) = Inl e"
  by (simp add: signalerror_def)

lemma snd_wrong_type [simp]: "snd (wrong_type w) = Inl InvalidFileAccess"
  by (simp add: wrong_type_def ps_then_def ps_bind_def pdfformaterror_def signalerror_def)

section \<open>Facts about the model\<close>

subsection \<open>Strings and loops\<close>

lemma length_fill_string [simp]: "length (fill_string n d) = n"
  by (simp add: fill_string_def)

lemma length_md5 [simp]: "length (md5 c s) = 16"
  by (simp add: md5_def)

lemma length_sha256 [simp]: "length (sha256 c s) = 32"
  by (simp add: sha256_def)

lemma getinterval_take:
  "n \<le> length s \<Longrightarrow> getinterval s 0 (int n) = ps_return (take n s)"
  by (simp add: getinterval_def)

lemma ps_for_pure:
  assumes "\<And>i s. i \<in> set js \<Longrightarrow> body i s = ps_return (f s i)"
  shows "ps_for js body s = ps_return (foldl f s js)"
  using assms by (induction js arbitrary: s) simp_all

lemma Encrypt_eq:
  "map_of (Trailer ctx) ''Encrypt'' = Some (PDict x enc) \<Longrightarrow> Encrypt ctx = ps_return enc"
  by (simp add: Encrypt_def oget_def as_dict_def)

subsection \<open>Bytes of an integer\<close>

lemma byte_mask: "word_of_int (j AND 255) = (word_of_int j :: byte)"
proof -
  have "(255 :: byte) = - 1" by simp
  then have "(word_of_int j :: byte) AND 255 = word_of_int j"
    by (simp only: and.right_neutral word_bitwise_m1_simps)
  then show ?thesis by (simp add: of_int_and_eq)
qed

lemma byte_at_div: "byte_at (8 * k) i = word_of_int (i div 256 ^ k)"
proof -
  have "drop_bit (8 * k) i = i div 256 ^ k"
    by (simp add: drop_bit_eq_div power_mult)
  then show ?thesis by (simp only: byte_at_def byte_mask)
qed

lemma le_bytes_4: "[byte_at 0 p, byte_at 8 p, byte_at 16 p, byte_at 24 p] = le_bytes 4 p"
  using byte_at_div [of 0 p] byte_at_div [of 1 p] byte_at_div [of 2 p] byte_at_div [of 3 p]
  by (simp add: le_bytes_def upt_rec numeral_nat)

lemma le_bytes_3: "[byte_at 0 p, byte_at 8 p, byte_at 16 p] = le_bytes 3 p"
  using byte_at_div [of 0 p] byte_at_div [of 1 p] byte_at_div [of 2 p]
  by (simp add: le_bytes_def upt_rec numeral_nat)

lemma le_bytes_2: "[byte_at 0 p, byte_at 8 p] = le_bytes 2 p"
  using byte_at_div [of 0 p] byte_at_div [of 1 p]
  by (simp add: le_bytes_def upt_rec numeral_nat)

subsection \<open>\<^verbatim>\<open>pdf_xorbytes\<close>\<close>

lemma byte_xor_int:
  fixes w :: byte
  assumes "0 \<le> it" "it \<le> 255"
  shows "0 \<le> uint w XOR it" "uint w XOR it \<le> 255"
    "word_of_int (uint w XOR it) = w XOR word_of_int it"
proof -
  show "0 \<le> uint w XOR it" using assms by simp
  have "uint w < 2 ^ 8" using uint_bounded [of w] by simp
  moreover have "it < 2 ^ 8" using assms by simp
  ultimately have "uint w XOR it < 2 ^ 8"
    by (intro XOR_upper) simp_all
  then show "uint w XOR it \<le> 255" by simp
  show "word_of_int (uint w XOR it) = w XOR word_of_int it"
    by (simp add: of_int_xor_eq)
qed

lemma xorbytes_step_eq:
  assumes "0 \<le> it" "it \<le> 255"
  shows "xorbytes_step it key (int a) new =
         ps_return (new[a := key ! a XOR word_of_int it])"
  using byte_xor_int [OF assms, of "key ! a"]
  by (simp add: xorbytes_step_def Let_def)

lemma xorbytes_loop:
  assumes "0 \<le> it" "it \<le> 255"
  shows "a \<le> length key \<Longrightarrow> length new = length key \<Longrightarrow>
     ps_for [int a .. int (length key) - 1] (xorbytes_step it key) new =
     ps_return (take a new @ map (\<lambda>k. k XOR word_of_int it) (drop a key))"
proof (induction "length key - a" arbitrary: a new)
  case 0
  then show ?case by simp
next
  case (Suc n)
  then have lt: "a < length key" by simp
  then have up: "[int a .. int (length key) - 1] = int a # [int (Suc a) .. int (length key) - 1]"
    by (simp add: upto_rec1 add.commute)
  have n: "n = length key - Suc a" using Suc.hyps(2) by simp
  have len: "length (new[a := key ! a XOR word_of_int it]) = length key"
    using Suc.prems by simp
  have "ps_for [int a .. int (length key) - 1] (xorbytes_step it key) new =
        ps_for [int (Suc a) .. int (length key) - 1] (xorbytes_step it key)
          (new[a := key ! a XOR word_of_int it])"
    unfolding up by (simp add: xorbytes_step_eq [OF assms])
  also have "\<dots> = ps_return (take (Suc a) (new[a := key ! a XOR word_of_int it]) @
                 map (\<lambda>k. k XOR word_of_int it) (drop (Suc a) key))"
    using Suc.hyps(1) [OF n _ len] lt by simp
  also have "take (Suc a) (new[a := key ! a XOR word_of_int it]) =
             take a new @ [key ! a XOR word_of_int it]"
    using lt Suc.prems by (simp add: take_Suc_conv_app_nth)
  also have "(take a new @ [key ! a XOR word_of_int it]) @
               map (\<lambda>k. k XOR word_of_int it) (drop (Suc a) key) =
             take a new @ map (\<lambda>k. k XOR word_of_int it) (drop a key)"
    using lt by (simp add: Cons_nth_drop_Suc [symmetric])
  finally show ?case .
qed

lemma pdf_xorbytes_eq:
  assumes "0 \<le> it" "it \<le> 255"
  shows "pdf_xorbytes it key = ps_return (map (\<lambda>k. k XOR word_of_int it) key)"
  using xorbytes_loop [OF assms, of 0 key "replicate (length key) 0"]
  by (simp add: pdf_xorbytes_def)

subsection \<open>The file key of revisions 2 to 4\<close>

lemma md5_trunk_eq:
  assumes "pdf_key_length ctx = ps_return (int n)" "n \<le> 16"
  shows "md5_trunk ctx c s = ps_return (take n (md5 c s))"
  using assms by (simp add: md5_trunk_def getinterval_take)

lemma md5_trunk_repeat:
  assumes "pdf_key_length ctx = ps_return (int n)" "n \<le> 16"
  shows "ps_repeat m (md5_trunk ctx c) k = ps_return (md5_rounds c n m k)"
  by (induction m arbitrary: k) (simp_all add: md5_trunk_eq [OF assms])

lemma length_md5_rounds: "n \<le> 16 \<Longrightarrow> length k = n \<Longrightarrow> length (md5_rounds c n m k) = n"
  by (induction m arbitrary: k) simp_all

lemma length_spec_file_key: "n \<le> 16 \<Longrightarrow> length (spec_file_key c n r buf) = n"
  by (simp add: spec_file_key_def length_md5_rounds)

lemma encrypt_metadata_false_eq:
  assumes "map_of enc ''EncryptMetadata'' = None \<or>
           (\<exists>b. map_of enc ''EncryptMetadata'' = Some (PBool b))"
  shows "encrypt_metadata_false enc =
         ps_return (map_of enc ''EncryptMetadata'' = Some (PBool False))"
  using assms by (auto simp: encrypt_metadata_false_def as_bool_def)

lemma compute_key_closed:
  assumes E: "Encrypt ctx = ps_return enc"
    and O: "map_of enc ''O'' = Some (PStr ostr)"
    and P: "map_of enc ''P'' = Some (PInt p)"
    and R: "map_of enc ''R'' = Some (PInt r)"
    and ID: "trailer_id0 ctx = (l, Inr (PStr id0))"
    and KL: "pdf_key_length ctx = ps_return (int n)" "n \<le> 16"
    and EM: "r < 4 \<or> map_of enc ''EncryptMetadata'' = None \<or>
           (\<exists>b. map_of enc ''EncryptMetadata'' = Some (PBool b))"
  shows "pdf_compute_encryption_key ctx c password =
     (l, Inr (spec_file_key c n r
        (pdf_pad_key password @ ostr @ le_bytes 4 p @ id0 @
         (if 4 \<le> r \<and> map_of enc ''EncryptMetadata'' = Some (PBool False)
          then [0xff, 0xff, 0xff, 0xff] else []))))"
proof (cases "4 \<le> r")
  case True
  with EM have "encrypt_metadata_false enc =
       ps_return (map_of enc ''EncryptMetadata'' = Some (PBool False))"
    by (intro encrypt_metadata_false_eq) auto
  with True show ?thesis
    unfolding pdf_compute_encryption_key_def
    by (simp add: E O P R ID oget_def as_int_def as_str_def ps_bind_Inr Let_def le_bytes_4
        md5_trunk_eq [OF KL] md5_trunk_repeat [OF KL] spec_file_key_def ps_return_def)
next
  case False
  then show ?thesis
    unfolding pdf_compute_encryption_key_def
    by (simp add: E O P R ID oget_def as_int_def as_str_def ps_bind_Inr Let_def le_bytes_4
        md5_trunk_eq [OF KL] md5_trunk_repeat [OF KL] spec_file_key_def ps_return_def)
qed

text \<open>The same document with its EncryptMetadata entry set to \<open>v\<close>.\<close>

lemma compute_key_R3_EncryptMetadata:
  assumes E: "map_of (Trailer ctx) ''Encrypt'' = Some (PDict x enc)"
    and R: "map_of enc ''R'' = Some (PInt 3)"
  shows "pdf_compute_encryption_key (set_EncryptMetadata v x enc ctx) c password =
         pdf_compute_encryption_key ctx c password"
proof -
  let ?enc' = "AList.update ''EncryptMetadata'' v enc"
  let ?ctx' = "set_EncryptMetadata v x enc ctx"
  have E': "Encrypt ?ctx' = ps_return ?enc'"
    by (simp add: Encrypt_def oget_def as_dict_def set_EncryptMetadata_def update_conv')
  have E0: "Encrypt ctx = ps_return enc" by (rule Encrypt_eq [OF E])
  have same: "map_of ?enc' k = map_of enc k" if "k \<noteq> ''EncryptMetadata''" for k
    using that by (simp add: update_conv')
  have KL: "pdf_key_length ?ctx' = pdf_key_length ctx"
    by (simp add: pdf_key_length_def E' E0 same)
  have MT: "md5_trunk ?ctx' c = md5_trunk ctx c"
    by (rule ext) (simp add: md5_trunk_def KL)
  have ID: "trailer_id0 ?ctx' = trailer_id0 ctx"
    by (simp add: trailer_id0_def set_EncryptMetadata_def update_conv')
  show ?thesis
    unfolding pdf_compute_encryption_key_def
    by (simp add: E' E0 oget_def same MT ID R Let_def as_int_def)
qed

subsection \<open>The user string of revisions 3 and 4\<close>

lemma arc4decode_RC4:
  assumes "\<forall>k d. length (RC4 c k d) = length d"
  shows "arc4decode c d k = RC4 c k d"
proof -
  have "length (RC4 c k d) = length d" using assms by blast
  then show ?thesis by (cases d) (simp_all add: arc4decode_def)
qed

lemma xor_round_eq:
  assumes "\<forall>k d. length (RC4 c k d) = length d" "0 \<le> i" "i \<le> 255"
  shows "xor_round c key i u = ps_return (RC4 c (map (\<lambda>k. k XOR word_of_int i) key) u)"
  by (simp add: xor_round_def pdf_xorbytes_eq [OF assms(2,3)] arc4decode_RC4 [OF assms(1)])

lemma xor_rounds_eq:
  assumes "\<forall>k d. length (RC4 c k d) = length d"
  shows "ps_for [1 .. 19] (xor_round c key) u =
         ps_return (foldl (\<lambda>u i. RC4 c (map (\<lambda>k. k XOR word_of_int i) key) u) u [1 .. 19])"
  by (rule ps_for_pure) (simp add: xor_round_eq [OF assms])

lemma length_rounds:
  assumes "\<forall>k d. length (RC4 c k d) = length d"
  shows "length (foldl (\<lambda>u i. RC4 c (g i) u) u js) = length u"
  using assms by (induction js arbitrary: u) simp_all

lemma length_user_string_R3:
  assumes "\<forall>k d. length (RC4 c k d) = length d"
  shows "length (user_string_R3 c id0 key) = 16"
  by (simp add: user_string_R3_def length_rounds [OF assms] assms)

lemma gen_user_password_R3_closed:
  assumes RC4: "\<forall>k d. length (RC4 c k d) = length d"
    and ID: "trailer_id0 ctx = (l, Inr (PStr id0))"
  shows "pdf_gen_user_password_R3 ctx c key = (l, Inr (user_string_R3 c id0 key))"
  by (simp add: pdf_gen_user_password_R3_def ID ps_bind_Inr as_str_def
      xor_rounds_eq [OF RC4] arc4decode_RC4 [OF RC4] user_string_R3_def ps_return_def)

lemma check_user_R3_closed:
  assumes RC4: "\<forall>k d. length (RC4 c k d) = length d"
    and E: "Encrypt ctx = ps_return enc"
    and R: "map_of enc ''R'' = Some (PInt r)" "r = 3 \<or> r = 4"
    and U: "map_of enc ''U'' = Some (PStr ustr)" "16 \<le> length ustr"
    and KEY: "pdf_compute_encryption_key ctx c password = (l1, Inr key)"
    and ID: "trailer_id0 ctx = (l2, Inr (PStr id0))"
  shows "pdf_check_pre_r5_user_password ctx c password =
     (l1 @ l2, Inr (if user_string_R3 c id0 key = take 16 ustr then Some key else None))"
proof -
  have gen: "pdf_gen_user_password ctx c password = (l1 @ l2, Inr (key, user_string_R3 c id0 key))"
    using R(2)
    by (auto simp: pdf_gen_user_password_def KEY ps_bind_Inr E R(1) oget_def
        gen_user_password_R3_closed [OF RC4 ID] ps_return_def)
  have gi: "ps_getinterval (PStr ustr) 0 16 = ps_return (PStr (take 16 ustr))"
    using U(2) by (simp add: ps_getinterval_def getinterval_def)
  show ?thesis
    by (simp add: pdf_check_pre_r5_user_password_def gen ps_bind_Inr E U(1) oget_def
        length_user_string_R3 [OF RC4] gi ps_return_def)
qed

subsection \<open>Object keys\<close>

lemma aes_salt_eq:
  assumes "spec_cfm enc ''StmF'' = Some m"
  shows "aes_salt enc = ps_return (if ps_eq m (PName ''AESV2'') then sAlT else [])"
  using assms unfolding spec_cfm_def aes_salt_def
  by (auto split: option.splits psobj.splits if_splits
      simp: as_dict_def oget_obj_def oget_def sAlT_def name_bytes_def)

lemma computeobjkey_closed:
  assumes E: "Encrypt ctx = ps_return enc"
    and V: "map_of enc ''V'' = Some (PInt v)"
    and FK: "FileKey ctx = Some fk"
    and CFM: "spec_cfm enc ''StmF'' = Some m"
  shows "computeobjkey ctx c objnum gen =
     ps_return (if v = 5 then fk
                else take (min (length fk + 5) 16)
                       (md5 c (fk @ le_bytes 3 objnum @ le_bytes 2 gen @
                               (if ps_eq m (PName ''AESV2'') then sAlT else []))))"
proof -
  have gi: "getinterval (md5 c s) 0 (min (int (length fk) + 5) 16) =
        ps_return (take (min (length fk + 5) 16) (md5 c s))" for s
  proof -
    have "nat (int (length fk) + 5) = length fk + 5" by simp
    then show ?thesis by (simp add: getinterval_def min_def)
  qed
  show ?thesis
    by (simp add: computeobjkey_def E V FK oget_def file_key_def aes_salt_eq [OF CFM]
        le_bytes_3 le_bytes_2 gi Let_def)
qed

subsection \<open>The checks of revisions 5 and 6\<close>

lemma snd_ps_bind:
  "snd (ps_bind m f) = (case snd m of Inl e \<Rightarrow> Inl e | Inr x \<Rightarrow> snd (f x))"
  by (cases m) (auto simp: ps_bind_def split: sum.splits prod.splits)

lemma snd_ps_then: "snd (ps_then m k) = (case snd m of Inl e \<Rightarrow> Inl e | Inr x \<Rightarrow> snd k)"
  by (simp add: ps_then_def snd_ps_bind)

lemma snd_diag [simp]:
  "snd (pdfformaterror msg) = Inr ()" "snd (pdfformatwarning msg) = Inr ()"
  "snd printProducer = Inr ()"
  by (simp_all add: pdfformaterror_def pdfformatwarning_def printProducer_def)

lemma str_interval_eq:
  "i + n \<le> length s \<Longrightarrow> str_interval (PStr s) (int i) (int n) = ps_return (take n (drop i s))"
  by (simp add: str_interval_def ps_getinterval_def getinterval_def as_str_def)

lemma ps_getinterval_eq:
  "i + n \<le> length s \<Longrightarrow>
   ps_getinterval (PStr s) (int i) (int n) = ps_return (PStr (take n (drop i s)))"
  by (simp add: ps_getinterval_def getinterval_def)

lemma aesdecode_eq:
  assumes "\<forall>k iv d. length (AES_CBC_decrypt c k iv d False) \<le> length d"
  shows "aesdecode c (replicate 16 0 @ d) key False =
         AES_CBC_decrypt c key (replicate 16 0) d False"
proof -
  have "length (AES_CBC_decrypt c key (replicate 16 0) d False) \<le> length d"
    using assms by blast
  then show ?thesis by (simp add: aesdecode_def)
qed

lemma snd_getinterval_marker:
  "snd (ps_bind (getinterval d 9 3) (\<lambda>m. if m \<noteq> adb then e else ps_return r)) =
   (if take 3 (drop 9 d) = adb then Inr r else
    if 12 \<le> length d then snd e else Inl RangeCheck)"
proof (cases "12 \<le> length d")
  case True
  then have "getinterval d 9 3 = ps_return (take 3 (drop 9 d))"
    by (simp add: getinterval_def)
  with True show ?thesis by simp
next
  case False
  then have "length (take 3 (drop 9 d)) \<noteq> length adb" by (simp add: adb_def)
  then have "take 3 (drop 9 d) \<noteq> adb" by metis
  with False show ?thesis by (simp add: getinterval_def)
qed

lemma perms_check_verdict:
  assumes AES: "\<forall>k iv d. length (AES_CBC_decrypt c k iv d False) \<le> length d"
    and P: "map_of enc ''Perms'' = Some (PStr perms)"
  shows "snd (perms_check c enc key) = spec_perms_verdict c key perms"
  unfolding perms_check_def
  by (simp add: P oget_def as_str_def aesdecode_eq [OF AES] snd_getinterval_marker
      snd_ps_then spec_perms_verdict_def)

lemma check_r5_closed:
  assumes AES: "\<forall>k iv d. length (AES_CBC_decrypt c k iv d False) \<le> length d"
    and E: "Encrypt ctx = ps_return enc"
    and O: "map_of enc ''O'' = Some (PStr ostr)" "48 \<le> length ostr"
    and U: "map_of enc ''U'' = Some (PStr ustr)" "48 \<le> length ustr"
    and OE: "map_of enc ''OE'' = Some (PStr oe)"
    and UE: "map_of enc ''UE'' = Some (PStr ue)"
    and P: "map_of enc ''Perms'' = Some (PStr perms)"
    and PW: "pw = r5_password c password"
  shows "snd (pdf_check_r5_password ctx c password) =
     (if sha256 c (pw @ take 8 (drop 32 ostr) @ take 48 ustr) = take 32 ostr
      then spec_perms_verdict c
             (AES_CBC_decrypt c (sha256 c (pw @ take 8 (drop 40 ostr) @ take 48 ustr))
                (replicate 16 0) oe False) perms
      else if sha256 c (pw @ take 8 (drop 32 ustr)) = take 32 ustr
      then spec_perms_verdict c
             (AES_CBC_decrypt c (sha256 c (pw @ take 8 (drop 40 ustr)))
                (replicate 16 0) ue False) perms
      else Inr None)"
proof -
  have si: "str_interval (PStr ostr) 32 8 = ps_return (take 8 (drop 32 ostr))"
    "str_interval (PStr ostr) 40 8 = ps_return (take 8 (drop 40 ostr))"
    "str_interval (PStr ustr) 32 8 = ps_return (take 8 (drop 32 ustr))"
    "str_interval (PStr ustr) 40 8 = ps_return (take 8 (drop 40 ustr))"
    "str_interval (PStr ustr) 0 48 = ps_return (take 48 ustr)"
    "ps_getinterval (PStr ostr) 0 32 = ps_return (PStr (take 32 ostr))"
    "ps_getinterval (PStr ustr) 0 32 = ps_return (PStr (take 32 ustr))"
    using O(2) U(2) str_interval_eq [of 32 8 ostr] str_interval_eq [of 40 8 ostr]
      str_interval_eq [of 32 8 ustr] str_interval_eq [of 40 8 ustr]
      str_interval_eq [of 0 48 ustr] ps_getinterval_eq [of 0 32 ostr]
      ps_getinterval_eq [of 0 32 ustr]
    by simp_all
  show ?thesis
    unfolding pdf_check_r5_password_def
    by (simp add: PW [symmetric] E O(1) U(1) OE UE oget_def si as_str_def Let_def
        aesdecode_eq [OF AES] perms_check_verdict [OF AES P])
qed

lemma check_r6_closed:
  assumes AES: "\<forall>k iv d. length (AES_CBC_decrypt c k iv d False) \<le> length d"
    and O: "map_of enc ''O'' = Some (PStr ostr)" "48 \<le> length ostr"
    and U: "map_of enc ''U'' = Some (PStr ustr)" "48 \<le> length ustr"
    and OE: "map_of enc ''OE'' = Some (PStr oe)"
    and UE: "map_of enc ''UE'' = Some (PStr ue)"
    and P: "map_of enc ''Perms'' = Some (PStr perms)"
  shows "snd (check_r6_password c password enc) =
     (if hardenedHash c password (take 8 (drop 32 ustr)) [] = take 32 ustr
      then spec_perms_verdict c
             (AES_CBC_decrypt c (hardenedHash c password (take 8 (drop 40 ustr)) [])
                (replicate 16 0) ue False) perms
      else if hardenedHash c password (take 8 (drop 32 ostr)) (take 48 ustr) = take 32 ostr
      then spec_perms_verdict c
             (AES_CBC_decrypt c (hardenedHash c password (take 8 (drop 40 ostr)) (take 48 ustr))
                (replicate 16 0) oe False) perms
      else Inr None)"
proof -
  have si: "str_interval (PStr ostr) 32 8 = ps_return (take 8 (drop 32 ostr))"
    "str_interval (PStr ostr) 40 8 = ps_return (take 8 (drop 40 ostr))"
    "str_interval (PStr ostr) 0 32 = ps_return (take 32 ostr)"
    "str_interval (PStr ustr) 32 8 = ps_return (take 8 (drop 32 ustr))"
    "str_interval (PStr ustr) 40 8 = ps_return (take 8 (drop 40 ustr))"
    "str_interval (PStr ustr) 0 48 = ps_return (take 48 ustr)"
    "str_interval (PStr ustr) 0 32 = ps_return (take 32 ustr)"
    using O(2) U(2) str_interval_eq [of 32 8 ostr] str_interval_eq [of 40 8 ostr]
      str_interval_eq [of 0 32 ostr]
      str_interval_eq [of 32 8 ustr] str_interval_eq [of 40 8 ustr]
      str_interval_eq [of 0 48 ustr] str_interval_eq [of 0 32 ustr]
    by simp_all
  show ?thesis
    unfolding check_r6_password_def
    by (simp add: O(1) U(1) OE UE oget_def si as_str_def perms_check_verdict [OF AES P])
qed

lemma r5_password_take:
  "r5_password c p = take 127 (case saslprep c of Some f \<Rightarrow> f p | None \<Rightarrow> p)"
  by (simp add: r5_password_def Let_def)

subsection \<open>\<^verbatim>\<open>pdf_process_Encrypt\<close>\<close>

lemma process_Encrypt_verify:
  assumes E: "Encrypt ctx = ps_return enc"
    and F: "map_of enc ''Filter'' = Some flt" "ps_eq flt (PName ''Standard'')"
    and REQ: "require_password enc = (l, Inr required)"
    and RUN: "required \<or> PDFPassword ctx \<noteq> None"
  shows "pdf_process_Encrypt ctx c =
         (l @ fst (verify_passwords ctx c), snd (verify_passwords ctx c))"
  using RUN
  by (auto simp: pdf_process_Encrypt_def E F oget_def REQ ps_bind_Inr ps_then_def)

lemma snd_verify_passwords:
  "snd (verify_passwords ctx c) =
     (case snd (pdf_check_password ctx c []) of
        Inl e \<Rightarrow> Inl e
      | Inr (Some k) \<Rightarrow> Inr (ctx\<lparr>FileKey := Some k\<rparr>)
      | Inr None \<Rightarrow>
          (case PDFPassword ctx of
             None \<Rightarrow> Inl InvalidFileAccess
           | Some password \<Rightarrow>
               (case snd (pdf_check_password ctx c password) of
                  Inl e \<Rightarrow> Inl e
                | Inr (Some k) \<Rightarrow> Inr (ctx\<lparr>FileKey := Some k\<rparr>)
                | Inr None \<Rightarrow> Inl InvalidFileAccess)))"
  unfolding verify_passwords_def
  by (auto simp: snd_ps_bind snd_ps_then non_ascii_warning_def
      split: sum.splits option.splits)

lemma verify_passwords_empty:
  assumes "pdf_check_password ctx c [] = (l1, Inr (Some key))"
  shows "verify_passwords ctx c = (l1, Inr (ctx\<lparr>FileKey := Some key\<rparr>))"
  by (simp add: verify_passwords_def assms ps_bind_Inr ps_return_def)

subsection \<open>Facts about the instance\<close>

lemma demo_RC4_length: "\<forall>k d. length (RC4 demo_caps k d) = length d"
  by (simp add: demo_caps_def demo_rc4_def)

lemma r3_Encrypt: "map_of (Trailer (r3_ctx u)) ''Encrypt'' = Some (PDict False (r3_encrypt u))"
  by (simp add: r3_ctx_def)

lemma r3_entries:
  "map_of (r3_encrypt u) ''O'' = Some (PStr (replicate 32 7))"
  "map_of (r3_encrypt u) ''P'' = Some (PInt (- 44))"
  "map_of (r3_encrypt u) ''R'' = Some (PInt 3)"
  "map_of (r3_encrypt u) ''U'' = Some (PStr u)"
  "map_of (r3_encrypt u) ''EncryptMetadata'' = Some (PBool False)"
  by (simp_all add: r3_encrypt_def)

lemma r3_id0: "trailer_id0 (r3_ctx u) = ([], Inr (PStr [1, 2, 3, 4]))"
  by (simp add: trailer_id0_def r3_ctx_def get0_def ps_return_def)

lemma r3_key_length: "pdf_key_length (r3_ctx u) = ps_return (int 16)"
  by (simp add: pdf_key_length_def Encrypt_eq [OF r3_Encrypt] r3_encrypt_def as_int_def
      drop_bit_eq_div)

lemma r3_file_key:
  "spec_file_key demo_caps 16 3
     (pdf_pad_key [] @ replicate 32 7 @ le_bytes 4 (- 44) @ [1, 2, 3, 4] @ []) = r3_key"
  by code_simp

lemma r3_compute_key: "pdf_compute_encryption_key (r3_ctx u) demo_caps [] = ([], Inr r3_key)"
proof -
  have "pdf_compute_encryption_key (r3_ctx u) demo_caps [] =
    ([], Inr (spec_file_key demo_caps 16 3
        (pdf_pad_key [] @ replicate 32 7 @ le_bytes 4 (- 44) @ [1, 2, 3, 4] @
         (if (4::int) \<le> 3 \<and> map_of (r3_encrypt u) ''EncryptMetadata'' = Some (PBool False)
          then [0xff, 0xff, 0xff, 0xff] else []))))"
    by (rule compute_key_closed [OF Encrypt_eq [OF r3_Encrypt] r3_entries(1,2,3) r3_id0
          r3_key_length]) simp_all
  then show ?thesis using r3_file_key by simp
qed

lemma r3_code_string: "user_string_R3 demo_caps [1, 2, 3, 4] r3_key = r3_user_string"
  by code_simp

lemma r3_claimed_string: "spec_user_string_R3 demo_caps [1, 2, 3, 4] r3_key = r3_spec_string"
  by code_simp

lemma r2_noid_Encrypt:
  "map_of (Trailer r2_noid_ctx) ''Encrypt'' = Some (PDict False (r2_encrypt r2_user_string))"
  by (simp add: r2_noid_ctx_def)

lemma r2_entries:
  "map_of (r2_encrypt u) ''O'' = Some (PStr (replicate 32 9))"
  "map_of (r2_encrypt u) ''P'' = Some (PInt (- 64))"
  "map_of (r2_encrypt u) ''R'' = Some (PInt 2)"
  "map_of (r2_encrypt u) ''U'' = Some (PStr u)"
  "map_of (r2_encrypt u) ''EncryptMetadata'' = None"
  by (simp_all add: r2_encrypt_def)

lemma r2_noid_key_length: "pdf_key_length r2_noid_ctx = ps_return (int 5)"
  by (simp add: pdf_key_length_def Encrypt_eq [OF r2_noid_Encrypt] r2_encrypt_def)

lemma r3_open_Encrypt:
  "map_of (Trailer r3_open_ctx) ''Encrypt'' = Some (PDict False (r3_encrypt []))"
  by (simp add: r3_open_ctx_def r3_ctx_def)

lemma r3_open_object_key: "computeobjkey r3_open_ctx demo_caps 7 0 = ps_return r3_object_key"
  by code_simp

lemma r4_open_Encrypt:
  "map_of (Trailer r4_open_ctx) ''Encrypt'' = Some (PDict False r4_encrypt)"
  by (simp add: r4_open_ctx_def)

lemma demo_AES_length: "\<forall>k iv d. length (AES_CBC_decrypt demo_caps k iv d False) \<le> length d"
  by (simp add: demo_caps_def demo_aes_def)

lemma r5_Encrypt: "map_of (Trailer (r5_ctx p)) ''Encrypt'' = Some (PDict False (r5_encrypt p))"
  by (simp add: r5_ctx_def)

lemma r5_entries:
  "map_of (r5_encrypt p) ''O'' = Some (PStr (replicate 48 3))"
  "map_of (r5_encrypt p) ''U'' = Some (PStr r5_user_entry)"
  "map_of (r5_encrypt p) ''OE'' = Some (PStr (replicate 32 11))"
  "map_of (r5_encrypt p) ''UE'' = Some (PStr (replicate 32 5))"
  "map_of (r5_encrypt p) ''Perms'' = Some (PStr p)"
  by (simp_all add: r5_encrypt_def)

lemma r5_hashes:
  "sha256 demo_caps ([] @ take 8 (drop 32 (replicate 48 3)) @ take 48 r5_user_entry)
     \<noteq> take 32 (replicate 48 3)"
  "sha256 demo_caps ([] @ take 8 (drop 32 r5_user_entry)) = take 32 r5_user_entry"
  "AES_CBC_decrypt demo_caps (sha256 demo_caps ([] @ take 8 (drop 40 r5_user_entry)))
     (replicate 16 0) (replicate 32 5) False = replicate 32 2"
  by code_simp+

lemma r5_verdicts:
  "spec_perms_verdict demo_caps (replicate 32 2) r5_perms = Inr (Some (replicate 32 2))"
  "spec_perms_verdict demo_caps (replicate 32 2) r5_perms_corrupted = Inl RangeCheck"
  by code_simp+

lemma r2_Encrypt: "map_of (Trailer (r2_ctx u pw)) ''Encrypt'' = Some (PDict False (r2_encrypt u))"
  by (simp add: r2_ctx_def)

lemma r2_check_empty:
  "pdf_check_password (r2_ctx r2_user_string pw) demo_caps [] = ([], Inr (Some r2_key))"
  by code_simp

lemma r2_check_other:
  "pdf_check_password (r2_ctx r2_user_string pw) demo_caps [65] = ([], Inr None)"
  by code_simp

section \<open>The password-requirement test\<close>

text \<open>
  Claim C1, as the specification states it, fails: with V 4, no StmF, no StrF and a StdCF
  whose AuthEvent is DocOpen the specification expects that no password is required, and
  the test of \<^verbatim>\<open>pdf_process_Encrypt\<close> requires one.
\<close>

theorem require_password_DocOpen_counterexample:
  "spec_no_password_needed docopen_encrypt \<and>
   require_password docopen_encrypt = ([], Inr True)"
  by (auto simp add: spec_no_password_needed_def docopen_encrypt_def require_password_def
      not_Identity_def oget_def as_int_def ps_return_def ps_bind_def)

text \<open>
  Claim C1, amended. The test reports that no password is required exactly when V is an
  integer of at least 4, StmF and StrF are absent or Identity, and CF holds a dictionary
  StdCF whose AuthEvent is a name other than DocOpen. It requires a password exactly when
  V is an integer and either V is below 4, or CF, StdCF or AuthEvent is absent, or
  AuthEvent is DocOpen, or one of StmF and StrF is not Identity. Every other dictionary
  ends in an error.
\<close>

theorem require_password_iff:
  "(snd (require_password enc) = Inr False) =
     ((\<exists>v. map_of enc ''V'' = Some (PInt v) \<and> 4 \<le> v) \<and>
      \<not> not_Identity enc ''StmF'' \<and> \<not> not_Identity enc ''StrF'' \<and>
      (\<exists>x cf y std a. map_of enc ''CF'' = Some (PDict x cf) \<and>
         map_of cf ''StdCF'' = Some (PDict y std) \<and>
         map_of std ''AuthEvent'' = Some (PName a) \<and> a \<noteq> ''DocOpen''))
   \<and>
   (snd (require_password enc) = Inr True) =
     (\<exists>v. map_of enc ''V'' = Some (PInt v) \<and>
        (v < 4 \<or> map_of enc ''CF'' = None \<or>
         (\<exists>x cf. map_of enc ''CF'' = Some (PDict x cf) \<and>
            (map_of cf ''StdCF'' = None \<or>
             (\<exists>y std. map_of cf ''StdCF'' = Some (PDict y std) \<and>
                (map_of std ''AuthEvent'' = None \<or>
                 (\<exists>a. map_of std ''AuthEvent'' = Some (PName a) \<and>
                    (a = ''DocOpen'' \<or> not_Identity enc ''StmF'' \<or>
                     not_Identity enc ''StrF''))))))))"
proof (intro conjI)
  show "(snd (require_password enc) = Inr False) =
     ((\<exists>v. map_of enc ''V'' = Some (PInt v) \<and> 4 \<le> v) \<and>
      \<not> not_Identity enc ''StmF'' \<and> \<not> not_Identity enc ''StrF'' \<and>
      (\<exists>x cf y std a. map_of enc ''CF'' = Some (PDict x cf) \<and>
         map_of cf ''StdCF'' = Some (PDict y std) \<and>
         map_of std ''AuthEvent'' = Some (PName a) \<and> a \<noteq> ''DocOpen''))"
    unfolding require_password_def oget_def as_int_def
    by (auto split: option.splits psobj.splits simp: Let_def)
next
  show "(snd (require_password enc) = Inr True) =
     (\<exists>v. map_of enc ''V'' = Some (PInt v) \<and>
        (v < 4 \<or> map_of enc ''CF'' = None \<or>
         (\<exists>x cf. map_of enc ''CF'' = Some (PDict x cf) \<and>
            (map_of cf ''StdCF'' = None \<or>
             (\<exists>y std. map_of cf ''StdCF'' = Some (PDict y std) \<and>
                (map_of std ''AuthEvent'' = None \<or>
                 (\<exists>a. map_of std ''AuthEvent'' = Some (PName a) \<and>
                    (a = ''DocOpen'' \<or> not_Identity enc ''StmF'' \<or>
                     not_Identity enc ''StrF''))))))))"
    unfolding require_password_def oget_def as_int_def
    by (auto split: option.splits psobj.splits simp: Let_def)
qed

section \<open>The user password check of revisions 3 and 4\<close>

text \<open>
  Claim C2, amended. For R 3 or 4 the user-password check computes
  \<open>h = MD5(paddingString ++ id0)\<close> and \<open>u = RC4(key = fileKey, data = h)\<close>; then, for each
  round \<open>i\<close> from 1 to 19, \<open>u = RC4(key = xorbytes(i, fileKey), data = u)\<close>, where
  \<open>xorbytes(i, key)[j] = key[j] XOR i\<close>: the round number is XORed into the key, and the
  data of a round is the string of the round before. The check succeeds exactly when the
  resulting 16 bytes equal \<open>U[0:16]\<close>. The ciphers keep the length of their data.
\<close>

theorem user_password_check_R3:
  assumes RC4: "\<forall>k d. length (RC4 c k d) = length d"
    and E: "Encrypt ctx = ps_return enc"
    and R: "map_of enc ''R'' = Some (PInt r)" "r = 3 \<or> r = 4"
    and U: "map_of enc ''U'' = Some (PStr ustr)" "16 \<le> length ustr"
    and KEY: "pdf_compute_encryption_key ctx c password = (l1, Inr fileKey)"
    and ID: "trailer_id0 ctx = (l2, Inr (PStr id0))"
  shows "pdf_check_pre_r5_user_password ctx c password =
     (l1 @ l2,
      Inr (if foldl (\<lambda>u i. RC4 c (map (\<lambda>k. k XOR word_of_int i) fileKey) u)
                (RC4 c fileKey (md5 c (pdf_padding_string @ id0))) [1 .. 19] = take 16 ustr
           then Some fileKey else None)) \<and>
     (\<forall>i \<in> {1 .. 19}. pdf_xorbytes i fileKey =
        ps_return (map (\<lambda>k. k XOR word_of_int i) fileKey))"
proof
  show "pdf_check_pre_r5_user_password ctx c password =
     (l1 @ l2,
      Inr (if foldl (\<lambda>u i. RC4 c (map (\<lambda>k. k XOR word_of_int i) fileKey) u)
                (RC4 c fileKey (md5 c (pdf_padding_string @ id0))) [1 .. 19] = take 16 ustr
           then Some fileKey else None))"
    using check_user_R3_closed [OF RC4 E R U KEY ID] by (simp only: user_string_R3_def)
  show "\<forall>i \<in> {1 .. 19}. pdf_xorbytes i fileKey =
        ps_return (map (\<lambda>k. k XOR word_of_int i) fileKey)"
    by (simp add: pdf_xorbytes_eq)
qed

text \<open>
  The revision 3 document of the instance, with the string of the code in \<^verbatim>\<open>/U\<close>:
  the empty password passes.
\<close>

theorem user_password_check_R3_witness:
  "pdf_check_pre_r5_user_password (r3_ctx (r3_user_string @ replicate 16 0)) demo_caps [] =
     ([], Inr (Some r3_key)) \<and>
   pdf_xorbytes 19 r3_key = ps_return (map (\<lambda>k. k XOR 19) r3_key)"
proof -
  have len: "16 \<le> length (r3_user_string @ replicate 16 0)" by simp
  have r: "(3::int) = 3 \<or> (3::int) = 4" by simp
  show ?thesis
    using user_password_check_R3 [OF demo_RC4_length Encrypt_eq [OF r3_Encrypt] r3_entries(3) r
        r3_entries(4) len r3_compute_key r3_id0]
      r3_code_string [unfolded user_string_R3_def]
    by (simp add: r3_user_string_def)
qed

text \<open>
  Claim C2, as the specification states it, fails. In the revision 3 document whose
  \<^verbatim>\<open>/U\<close> starts with the string of the specification's formula
  (\<open>u = RC4_decrypt(xorBytes(u, fileKey, i), fileKey)\<close> with
  \<open>xorBytes(buf, key, i)[j] = buf[j] XOR key[j] XOR i\<close>) for the file key of the empty
  password, the check of the empty password fails.
\<close>

theorem user_password_check_R3_counterexample:
  "pdf_compute_encryption_key (r3_ctx (r3_spec_string @ replicate 16 0)) demo_caps [] =
     ([], Inr r3_key) \<and>
   spec_user_string_R3 demo_caps [1, 2, 3, 4] r3_key =
     take 16 (r3_spec_string @ replicate 16 0) \<and>
   pdf_check_pre_r5_user_password (r3_ctx (r3_spec_string @ replicate 16 0)) demo_caps [] =
     ([], Inr None)"
proof -
  have len: "16 \<le> length (r3_spec_string @ replicate 16 0)" by simp
  have r: "(3::int) = 3 \<or> (3::int) = 4" by simp
  have "pdf_check_pre_r5_user_password (r3_ctx (r3_spec_string @ replicate 16 0)) demo_caps [] =
     ([], Inr None)"
    using check_user_R3_closed [OF demo_RC4_length Encrypt_eq [OF r3_Encrypt] r3_entries(3) r
        r3_entries(4) len r3_compute_key r3_id0]
    by (simp add: r3_code_string r3_user_string_def r3_spec_string_def)
  then show ?thesis
    by (simp add: r3_compute_key r3_claimed_string r3_spec_string_def)
qed

section \<open>The file key and EncryptMetadata\<close>

text \<open>
  Claim C4. In \<^verbatim>\<open>pdf_compute_encryption_key\<close> the four bytes 0xFF are appended to the
  MD5 input exactly when R is at least 4 and EncryptMetadata is false. For R 3 the step is
  skipped: the file key is the same whatever the EncryptMetadata entry is set to.
\<close>

theorem encryption_key_EncryptMetadata:
  assumes E: "map_of (Trailer ctx) ''Encrypt'' = Some (PDict x enc)"
    and O: "map_of enc ''O'' = Some (PStr ostr)"
    and P: "map_of enc ''P'' = Some (PInt p)"
    and R: "map_of enc ''R'' = Some (PInt r)"
    and ID: "trailer_id0 ctx = (l, Inr (PStr id0))"
    and KL: "pdf_key_length ctx = ps_return (int n)" "n \<le> 16"
    and EM: "r < 4 \<or> map_of enc ''EncryptMetadata'' = None \<or>
           (\<exists>b. map_of enc ''EncryptMetadata'' = Some (PBool b))"
  shows "pdf_compute_encryption_key ctx c password =
     (l, Inr (spec_file_key c n r
        (pdf_pad_key password @ ostr @ le_bytes 4 p @ id0 @
         (if 4 \<le> r \<and> map_of enc ''EncryptMetadata'' = Some (PBool False)
          then [0xff, 0xff, 0xff, 0xff] else [])))) \<and>
     (r = 3 \<longrightarrow>
       (\<forall>v. pdf_compute_encryption_key (set_EncryptMetadata v x enc ctx) c password =
            pdf_compute_encryption_key ctx c password))"
  using compute_key_closed [OF Encrypt_eq [OF E] O P R ID KL EM]
    compute_key_R3_EncryptMetadata [OF E] R
  by simp

text \<open>
  The revision 3 document of the instance has EncryptMetadata false; its file key is the
  same for every value of that entry.
\<close>

theorem encryption_key_EncryptMetadata_witness:
  "map_of (r3_encrypt []) ''EncryptMetadata'' = Some (PBool False) \<and>
   pdf_compute_encryption_key (r3_ctx []) demo_caps [] = ([], Inr r3_key) \<and>
   (\<forall>v. pdf_compute_encryption_key
          (set_EncryptMetadata v False (r3_encrypt []) (r3_ctx [])) demo_caps [] =
        ([], Inr r3_key))"
proof -
  have em: "(3::int) < 4 \<or> map_of (r3_encrypt []) ''EncryptMetadata'' = None \<or>
           (\<exists>b. map_of (r3_encrypt []) ''EncryptMetadata'' = Some (PBool b))"
    by simp
  have n: "(16::nat) \<le> 16" by simp
  show ?thesis
    using encryption_key_EncryptMetadata [OF r3_Encrypt r3_entries(1,2,3) r3_id0 r3_key_length n em,
        of demo_caps "[]"] r3_file_key
    by (simp add: r3_entries(5))
qed

section \<open>The file key without a trailer ID\<close>

text \<open>
  Claim C8. When the trailer has no \<^verbatim>\<open>/ID\<close>, \<^verbatim>\<open>pdf_compute_encryption_key\<close>
  does not stop: the contribution of the ID to the MD5 input is the empty string, two
  diagnostics are logged through \<^verbatim>\<open>pdfformaterror\<close>, which does not raise an error,
  and the result is a key of the key length.
\<close>

theorem encryption_key_without_ID:
  assumes E: "Encrypt ctx = ps_return enc"
    and O: "map_of enc ''O'' = Some (PStr ostr)"
    and P: "map_of enc ''P'' = Some (PInt p)"
    and R: "map_of enc ''R'' = Some (PInt r)"
    and KL: "pdf_key_length ctx = ps_return (int n)" "n \<le> 16"
    and EM: "r < 4 \<or> map_of enc ''EncryptMetadata'' = None \<or>
           (\<exists>b. map_of enc ''EncryptMetadata'' = Some (PBool b))"
    and ID: "map_of (Trailer ctx) ''ID'' = None"
  shows "\<exists>key. pdf_compute_encryption_key ctx c password =
       ([FormatError ''   **** Error: ID key in the trailer is required for encrypted files.\<newline>'',
         FormatError ''               File may not be possible to decrypt.\<newline>''],
        Inr key) \<and>
     length key = n \<and>
     key = spec_file_key c n r
        (pdf_pad_key password @ ostr @ le_bytes 4 p @ [] @
         (if 4 \<le> r \<and> map_of enc ''EncryptMetadata'' = Some (PBool False)
          then [0xff, 0xff, 0xff, 0xff] else []))"
proof -
  have id0: "trailer_id0 ctx =
      ([FormatError ''   **** Error: ID key in the trailer is required for encrypted files.\<newline>'',
        FormatError ''               File may not be possible to decrypt.\<newline>''],
       Inr (PStr []))"
    by (simp add: trailer_id0_def ID ps_then_def ps_bind_def pdfformaterror_def ps_return_def)
  show ?thesis
    using compute_key_closed [OF E O P R id0 KL EM] length_spec_file_key [OF KL(2)]
    by simp
qed

text \<open>The revision 2 document of the instance without its \<^verbatim>\<open>/ID\<close>.\<close>

theorem encryption_key_without_ID_witness:
  "map_of (Trailer r2_noid_ctx) ''ID'' = None \<and>
   pdf_compute_encryption_key r2_noid_ctx demo_caps [] =
     ([FormatError ''   **** Error: ID key in the trailer is required for encrypted files.\<newline>'',
       FormatError ''               File may not be possible to decrypt.\<newline>''],
      Inr [213, 171, 174, 179, 186])"
proof -
  have em: "(2::int) < 4 \<or> map_of (r2_encrypt r2_user_string) ''EncryptMetadata'' = None \<or>
           (\<exists>b. map_of (r2_encrypt r2_user_string) ''EncryptMetadata'' = Some (PBool b))"
    by simp
  have n: "(5::nat) \<le> 16" by simp
  have noid: "map_of (Trailer r2_noid_ctx) ''ID'' = None"
    by (simp add: r2_noid_ctx_def)
  have key: "spec_file_key demo_caps 5 2
      (pdf_pad_key [] @ replicate 32 9 @ le_bytes 4 (- 64) @ [] @ []) = [213, 171, 174, 179, 186]"
    by code_simp
  show ?thesis
    using encryption_key_without_ID [OF Encrypt_eq [OF r2_noid_Encrypt] r2_entries(1,2,3)
        r2_noid_key_length n em noid, of demo_caps "[]"] key noid
    by simp
qed

section \<open>Object keys\<close>

text \<open>
  Claim C5. For V 5 \<^verbatim>\<open>computeobjkey\<close> returns the file key, whatever the object and
  generation numbers are. Otherwise it returns the first \<open>min (length fileKey + 5) 16\<close>
  bytes of the MD5 of the file key, the object number as 3 little-endian bytes and the
  generation number as 2 little-endian bytes, followed by \<^verbatim>\<open>sAlT\<close> exactly when the
  crypt filter method is AESV2. The method is the one that \<^verbatim>\<open>/StmF\<close> names in
  \<^verbatim>\<open>/CF\<close>.
\<close>

theorem computeobjkey_spec:
  assumes E: "Encrypt ctx = ps_return enc"
    and V: "map_of enc ''V'' = Some (PInt v)"
    and FK: "FileKey ctx = Some fileKey"
    and CFM: "spec_cfm enc ''StmF'' = Some cfm"
  shows "computeobjkey ctx c objNum gen =
     ps_return (if v = 5 then fileKey
                else take (min (length fileKey + 5) 16)
                       (md5 c (fileKey @ le_bytes 3 objNum @ le_bytes 2 gen @
                               (if ps_eq cfm (PName ''AESV2'') then sAlT else []))))"
  by (rule computeobjkey_closed [OF E V FK CFM])

text \<open>Object 7 0 of the revision 4 document of the instance, whose method is AESV2.\<close>

theorem computeobjkey_spec_witness:
  "spec_cfm r4_encrypt ''StmF'' = Some (PName ''AESV2'') \<and>
   computeobjkey r4_open_ctx demo_caps 7 0 =
     ps_return (take 16 (md5 demo_caps (r3_key @ [7, 0, 0] @ [0, 0] @ sAlT))) \<and>
   computeobjkey r4_open_ctx demo_caps 7 0 = ps_return r4_object_key"
proof -
  have cfm: "spec_cfm r4_encrypt ''StmF'' = Some (PName ''AESV2'')"
    by (simp add: spec_cfm_def r4_encrypt_def)
  have v: "map_of r4_encrypt ''V'' = Some (PInt 4)"
    by (simp add: r4_encrypt_def)
  have fk: "FileKey r4_open_ctx = Some r3_key"
    by (simp add: r4_open_ctx_def)
  have le: "le_bytes 3 7 = [7, 0, 0]" "le_bytes 2 0 = [0, 0]"
    by code_simp+
  have key: "take 16 (md5 demo_caps (r3_key @ [7, 0, 0] @ [0, 0] @ sAlT)) = r4_object_key"
    by code_simp
  have len: "length r3_key = 16" by (simp add: r3_key_def)
  show ?thesis
    using computeobjkey_spec [OF Encrypt_eq [OF r4_open_Encrypt] v fk cfm, of demo_caps 7 0] key
    by (simp add: cfm le len r4_object_key_def)
qed

section \<open>Object resolution\<close>

text \<open>
  Claim C3, as the specification states it, fails. In the revision 3 document of the
  instance EncryptMetadata is false; resolving an object whose stream dictionary has
  \<^verbatim>\<open>/Type /Metadata\<close> leaves the dictionary without a \<^verbatim>\<open>/StreamKey\<close>.
\<close>

theorem run_resolve_R3_counterexample:
  "map_of (r3_encrypt []) ''R'' = Some (PInt 3) \<and>
   pdf_run_resolve r3_open_ctx demo_caps metadata_scan 7 0 = ps_return metadata_stream \<and>
   stream_key metadata_stream = None"
  by (simp add: r3_entries stream_key_def metadata_stream_def) code_simp

text \<open>
  Claim C3, amended. Once the file key is established, an object that is a stream
  dictionary (an executable dictionary) gets \<^verbatim>\<open>/StreamKey\<close> with the derived object
  key when R is below 3. For R of at least 3, R 3 included, it is left without a key when
  EncryptMetadata is false and its \<^verbatim>\<open>/Type\<close> is \<^verbatim>\<open>/Metadata\<close>; otherwise R 3
  sets the key, and R of at least 4 sets it unless \<^verbatim>\<open>/StmF\<close> is absent or Identity.
\<close>

theorem run_resolve_spec:
  assumes FK: "FileKey ctx = Some fileKey"
    and KEY: "computeobjkey ctx c objNum gen = ps_return key"
    and SCAN: "scan (Some key) = (l, Inr (PDict True d))"
    and E: "Encrypt ctx = ps_return enc"
    and R: "map_of enc ''R'' = Some (PInt r)"
    and EM: "r < 3 \<or> map_of enc ''EncryptMetadata'' = None \<or>
           (\<exists>b. map_of enc ''EncryptMetadata'' = Some (PBool b))"
  shows "\<exists>obj. pdf_run_resolve ctx c scan objNum gen = (l, Inr obj) \<and>
     (if r < 3 then obj = put_StreamKey True d key \<and> stream_key obj = Some (PStr key)
      else if map_of enc ''EncryptMetadata'' = Some (PBool False) \<and>
              ps_eq (case map_of d ''Type'' of None \<Rightarrow> PNull | Some t \<Rightarrow> t) (PName ''Metadata'')
      then obj = PDict True d
      else if r < 4 then obj = put_StreamKey True d key \<and> stream_key obj = Some (PStr key)
      else if not_Identity enc ''StmF''
      then obj = put_StreamKey True d key \<and> stream_key obj = Some (PStr key)
      else obj = PDict True d)"
proof -
  have sk: "stream_key (put_StreamKey True d key) = Some (PStr key)"
    by (simp add: stream_key_def put_StreamKey_def update_conv')
  have em: "encrypt_metadata_false enc =
       ps_return (map_of enc ''EncryptMetadata'' = Some (PBool False))" if "\<not> r < 3"
    using EM that by (intro encrypt_metadata_false_eq) auto
  have ni: "not_Identity enc ''StmF'' =
      (\<not> ps_eq (case map_of enc ''StmF'' of None \<Rightarrow> PName ''Identity'' | Some f \<Rightarrow> f)
            (PName ''Identity''))"
    by (simp add: not_Identity_def split: option.splits)
  show ?thesis
  proof (cases "r < 3")
    case True
    then show ?thesis
      by (simp add: pdf_run_resolve_def FK KEY SCAN ps_bind_Inr E R oget_def as_int_def sk
          ps_return_def)
  next
    case False
    then show ?thesis
      by (simp add: pdf_run_resolve_def FK KEY SCAN ps_bind_Inr E R oget_def as_int_def sk
          em ni ps_return_def del: ps_eq.simps)
  qed
qed

text \<open>
  In the revision 3 document of the instance an image stream gets its key; the theorem
  applies to the metadata stream as well.
\<close>

theorem run_resolve_spec_witness:
  "pdf_run_resolve r3_open_ctx demo_caps image_scan 7 0 =
     ps_return (PDict True [(''Type'', PName ''XObject''), (''Subtype'', PName ''Image''),
                            (''StreamKey'', PStr r3_object_key)])"
proof -
  have fk: "FileKey r3_open_ctx = Some r3_key"
    by (simp add: r3_open_ctx_def)
  have scan: "image_scan (Some r3_object_key) =
      ([], Inr (PDict True [(''Type'', PName ''XObject''), (''Subtype'', PName ''Image'')]))"
    by (simp add: image_scan_def image_stream_def ps_return_def)
  have em: "(3::int) < 3 \<or> map_of (r3_encrypt []) ''EncryptMetadata'' = None \<or>
           (\<exists>b. map_of (r3_encrypt []) ''EncryptMetadata'' = Some (PBool b))"
    by (auto simp: r3_entries)
  show ?thesis
    using run_resolve_spec [where scan = image_scan, OF fk r3_open_object_key scan
        Encrypt_eq [OF r3_open_Encrypt] r3_entries(3) em]
    by (auto simp: r3_entries put_StreamKey_def ps_return_def)
qed

section \<open>The Perms check of revisions 5 and 6\<close>

text \<open>
  Claim C6. For R 5 (the code) and R 6 (the operator \<^verbatim>\<open>check_r6_password\<close>, modelled
  from the spec): when the owner or the user hash comparison passes, the candidate file key
  decrypts \<^verbatim>\<open>/Perms\<close> with AES-CBC, a zero initialisation vector and no padding, and
  the check ends in the error \<^verbatim>\<open>rangecheck\<close> (IntegrityError) exactly when bytes 9 to 11
  of the result are not \<^verbatim>\<open>adb\<close>; otherwise it succeeds with that key. \<open>O\<close> and \<open>U\<close>
  have their 48 bytes, and the cipher returns no more bytes than it is given.
\<close>

theorem perms_integrity_check:
  assumes AES: "\<forall>k iv d. length (AES_CBC_decrypt c k iv d False) \<le> length d"
    and E: "Encrypt ctx = ps_return enc"
    and O: "map_of enc ''O'' = Some (PStr ostr)" "48 \<le> length ostr"
    and U: "map_of enc ''U'' = Some (PStr ustr)" "48 \<le> length ustr"
    and OE: "map_of enc ''OE'' = Some (PStr oe)"
    and UE: "map_of enc ''UE'' = Some (PStr ue)"
    and P: "map_of enc ''Perms'' = Some (PStr perms)"
    and PW: "pw = r5_password c password"
  shows
    "(sha256 c (pw @ take 8 (drop 32 ostr) @ take 48 ustr) = take 32 ostr \<longrightarrow>
        snd (pdf_check_r5_password ctx c password) =
        spec_perms_verdict c
          (AES_CBC_decrypt c (sha256 c (pw @ take 8 (drop 40 ostr) @ take 48 ustr))
             (replicate 16 0) oe False) perms) \<and>
     (sha256 c (pw @ take 8 (drop 32 ostr) @ take 48 ustr) \<noteq> take 32 ostr \<and>
      sha256 c (pw @ take 8 (drop 32 ustr)) = take 32 ustr \<longrightarrow>
        snd (pdf_check_r5_password ctx c password) =
        spec_perms_verdict c
          (AES_CBC_decrypt c (sha256 c (pw @ take 8 (drop 40 ustr)))
             (replicate 16 0) ue False) perms) \<and>
     (hardenedHash c password (take 8 (drop 32 ustr)) [] = take 32 ustr \<longrightarrow>
        snd (check_r6_password c password enc) =
        spec_perms_verdict c
          (AES_CBC_decrypt c (hardenedHash c password (take 8 (drop 40 ustr)) [])
             (replicate 16 0) ue False) perms) \<and>
     (hardenedHash c password (take 8 (drop 32 ustr)) [] \<noteq> take 32 ustr \<and>
      hardenedHash c password (take 8 (drop 32 ostr)) (take 48 ustr) = take 32 ostr \<longrightarrow>
        snd (check_r6_password c password enc) =
        spec_perms_verdict c
          (AES_CBC_decrypt c (hardenedHash c password (take 8 (drop 40 ostr)) (take 48 ustr))
             (replicate 16 0) oe False) perms)"
  using check_r5_closed [OF AES E O U OE UE P PW] check_r6_closed [OF AES O U OE UE P]
  by simp

text \<open>
  The revision 5 document of the instance, whose user password is empty: with its
  \<^verbatim>\<open>/Perms\<close> the check succeeds; with one byte of \<^verbatim>\<open>/Perms\<close> changed it ends in
  \<^verbatim>\<open>rangecheck\<close>.
\<close>

theorem perms_integrity_check_witness:
  "snd (pdf_check_r5_password (r5_ctx r5_perms) demo_caps []) = Inr (Some (replicate 32 2)) \<and>
   snd (pdf_check_r5_password (r5_ctx r5_perms_corrupted) demo_caps []) = Inl RangeCheck"
proof -
  have len: "48 \<le> length (replicate 48 (3::byte))" "48 \<le> length r5_user_entry"
    by (simp_all add: r5_user_entry_def)
  have pw: "[] = r5_password demo_caps []"
    by (simp add: r5_password_def demo_caps_def)
  show ?thesis
    using perms_integrity_check [OF demo_AES_length Encrypt_eq [OF r5_Encrypt] r5_entries(1) len(1)
        r5_entries(2) len(2) r5_entries(3,4,5) pw, of r5_perms]
      perms_integrity_check [OF demo_AES_length Encrypt_eq [OF r5_Encrypt] r5_entries(1) len(1)
        r5_entries(2) len(2) r5_entries(3,4,5) pw, of r5_perms_corrupted]
      r5_hashes r5_verdicts
    by simp
qed

section \<open>Password verification in \<^verbatim>\<open>pdf_process_Encrypt\<close>\<close>

text \<open>
  Claim C7. When \<^verbatim>\<open>PDFPassword\<close> is defined, \<^verbatim>\<open>pdf_process_Encrypt\<close> runs the
  password verification whatever the password-requirement test said: the outcome is that
  of \<^verbatim>\<open>pdf_check_password\<close> on the empty password and, where that fails, on
  \<^verbatim>\<open>PDFPassword\<close>; when both fail the document is not opened.
\<close>

theorem explicit_password_forces_verification:
  assumes E: "Encrypt ctx = ps_return enc"
    and F: "map_of enc ''Filter'' = Some flt" "ps_eq flt (PName ''Standard'')"
    and REQ: "require_password enc = (l, Inr required)"
    and PW: "PDFPassword ctx = Some password"
  shows "pdf_process_Encrypt ctx c =
           (l @ fst (verify_passwords ctx c), snd (verify_passwords ctx c)) \<and>
         snd (pdf_process_Encrypt ctx c) =
           (case snd (pdf_check_password ctx c []) of
              Inl e \<Rightarrow> Inl e
            | Inr (Some k) \<Rightarrow> Inr (ctx\<lparr>FileKey := Some k\<rparr>)
            | Inr None \<Rightarrow>
                (case snd (pdf_check_password ctx c password) of
                   Inl e \<Rightarrow> Inl e
                 | Inr (Some k) \<Rightarrow> Inr (ctx\<lparr>FileKey := Some k\<rparr>)
                 | Inr None \<Rightarrow> Inl InvalidFileAccess))"
proof -
  have run: "required \<or> PDFPassword ctx \<noteq> None" using PW by simp
  have A: "pdf_process_Encrypt ctx c =
           (l @ fst (verify_passwords ctx c), snd (verify_passwords ctx c))"
    by (rule process_Encrypt_verify [OF E F REQ run])
  have B: "snd (verify_passwords ctx c) =
           (case snd (pdf_check_password ctx c []) of
              Inl e \<Rightarrow> Inl e
            | Inr (Some k) \<Rightarrow> Inr (ctx\<lparr>FileKey := Some k\<rparr>)
            | Inr None \<Rightarrow>
                (case snd (pdf_check_password ctx c password) of
                   Inl e \<Rightarrow> Inl e
                 | Inr (Some k) \<Rightarrow> Inr (ctx\<lparr>FileKey := Some k\<rparr>)
                 | Inr None \<Rightarrow> Inl InvalidFileAccess))"
    by (simp add: snd_verify_passwords PW split: sum.splits option.splits)
  show ?thesis
  proof (intro conjI)
    show "pdf_process_Encrypt ctx c =
           (l @ fst (verify_passwords ctx c), snd (verify_passwords ctx c))"
      by (rule A)
    show "snd (pdf_process_Encrypt ctx c) =
           (case snd (pdf_check_password ctx c []) of
              Inl e \<Rightarrow> Inl e
            | Inr (Some k) \<Rightarrow> Inr (ctx\<lparr>FileKey := Some k\<rparr>)
            | Inr None \<Rightarrow>
                (case snd (pdf_check_password ctx c password) of
                   Inl e \<Rightarrow> Inl e
                 | Inr (Some k) \<Rightarrow> Inr (ctx\<lparr>FileKey := Some k\<rparr>)
                 | Inr None \<Rightarrow> Inl InvalidFileAccess))"
      unfolding A snd_conv by (rule B)
  qed
qed

text \<open>
  A document with V 4, both filters Identity and the AuthEvent EFOpen: the test says that
  no password is required. Without \<^verbatim>\<open>PDFPassword\<close> the document is opened with four
  warnings and no file key; with \<^verbatim>\<open>PDFPassword\<close> the passwords are checked.
\<close>

theorem explicit_password_forces_verification_witness:
  "require_password identity_encrypt = ([], Inr False) \<and>
   snd (pdf_process_Encrypt (identity_ctx None) demo_caps) = Inr (identity_ctx None) \<and>
   snd (pdf_process_Encrypt (identity_ctx (Some [65])) demo_caps) =
     (case snd (pdf_check_password (identity_ctx (Some [65])) demo_caps []) of
        Inl e \<Rightarrow> Inl e
      | Inr (Some k) \<Rightarrow> Inr ((identity_ctx (Some [65]))\<lparr>FileKey := Some k\<rparr>)
      | Inr None \<Rightarrow>
          (case snd (pdf_check_password (identity_ctx (Some [65])) demo_caps [65]) of
             Inl e \<Rightarrow> Inl e
           | Inr (Some k) \<Rightarrow> Inr ((identity_ctx (Some [65]))\<lparr>FileKey := Some k\<rparr>)
           | Inr None \<Rightarrow> Inl InvalidFileAccess))"
proof -
  have req: "require_password identity_encrypt = ([], Inr False)"
    by code_simp
  have e: "map_of (Trailer (identity_ctx pw)) ''Encrypt'' = Some (PDict False identity_encrypt)" for pw
    by (simp add: identity_ctx_def)
  have f: "map_of identity_encrypt ''Filter'' = Some (PName ''Standard'')"
    "ps_eq (PName ''Standard'') (PName ''Standard'')"
    by (simp_all add: identity_encrypt_def)
  have pw: "PDFPassword (identity_ctx (Some [65])) = Some [65]"
    by (simp add: identity_ctx_def)
  have none: "snd (pdf_process_Encrypt (identity_ctx None) demo_caps) = Inr (identity_ctx None)"
    by code_simp
  note checked = explicit_password_forces_verification [OF Encrypt_eq [OF e] f req pw, of demo_caps]
  show ?thesis
    using req none conjunct2 [OF checked] by (intro conjI)
qed

text \<open>
  Claim C9. Whenever the verification runs, the empty password is checked first: when it
  verifies, the file key is the one of the empty password and \<^verbatim>\<open>PDFPassword\<close> is not
  checked, whatever it is.
\<close>

theorem empty_password_first:
  assumes E: "Encrypt ctx = ps_return enc"
    and F: "map_of enc ''Filter'' = Some flt" "ps_eq flt (PName ''Standard'')"
    and REQ: "require_password enc = (l, Inr required)"
    and RUN: "required \<or> PDFPassword ctx \<noteq> None"
    and EMPTY: "pdf_check_password ctx c [] = (l1, Inr (Some key))"
  shows "pdf_process_Encrypt ctx c = (l @ l1, Inr (ctx\<lparr>FileKey := Some key\<rparr>))"
  using process_Encrypt_verify [OF E F REQ RUN, of c] verify_passwords_empty [OF EMPTY]
  by simp

text \<open>The document of the instance with the user password empty and PDFPassword A.\<close>

theorem empty_password_first_witness:
  "pdf_check_password (r2_ctx r2_user_string (Some [65])) demo_caps [65] = ([], Inr None) \<and>
   pdf_process_Encrypt (r2_ctx r2_user_string (Some [65])) demo_caps =
     ([], Inr ((r2_ctx r2_user_string (Some [65]))\<lparr>FileKey := Some r2_key\<rparr>))"
proof -
  have f: "map_of (r2_encrypt r2_user_string) ''Filter'' = Some (PName ''Standard'')"
    "ps_eq (PName ''Standard'') (PName ''Standard'')"
    by (simp_all add: r2_encrypt_def)
  have req: "require_password (r2_encrypt r2_user_string) = ([], Inr True)"
    by code_simp
  have run: "True \<or> PDFPassword (r2_ctx r2_user_string (Some [65])) \<noteq> None"
    by simp
  show ?thesis
    using empty_password_first [OF Encrypt_eq [OF r2_Encrypt] f req run r2_check_empty]
      r2_check_other
    by simp
qed

section \<open>The password of revision 5\<close>

text \<open>
  Claim C10. \<^verbatim>\<open>pdf_check_r5_password\<close> uses the first 127 bytes of the password after
  \<^verbatim>\<open>.saslprep\<close>, where that operator exists: two passwords that agree there have the same
  outcome, diagnostics and file key.
\<close>

theorem r5_password_first_127_bytes:
  assumes "take 127 (case saslprep c of Some f \<Rightarrow> f p1 | None \<Rightarrow> p1) =
           take 127 (case saslprep c of Some f \<Rightarrow> f p2 | None \<Rightarrow> p2)"
  shows "pdf_check_r5_password ctx c p1 = pdf_check_r5_password ctx c p2"
proof -
  have "r5_password c p1 = r5_password c p2"
    using assms by (simp only: r5_password_take)
  then show ?thesis
    unfolding pdf_check_r5_password_def by (simp only:)
qed

text \<open>Two passwords of 128 bytes that differ in the last byte.\<close>

theorem r5_password_first_127_bytes_witness:
  "replicate 127 65 @ [1] \<noteq> replicate 127 (65::byte) @ [2] \<and>
   pdf_check_r5_password (r5_ctx r5_perms) demo_caps (replicate 127 65 @ [1]) =
   pdf_check_r5_password (r5_ctx r5_perms) demo_caps (replicate 127 65 @ [2])"
proof -
  have "take 127 (case saslprep demo_caps of Some f \<Rightarrow> f (replicate 127 65 @ [1])
                  | None \<Rightarrow> replicate 127 65 @ [1]) =
        take 127 (case saslprep demo_caps of Some f \<Rightarrow> f (replicate 127 65 @ [2])
                  | None \<Rightarrow> replicate 127 (65::byte) @ [2])"
    by (simp add: demo_caps_def)
  from r5_password_first_127_bytes [OF this, of "r5_ctx r5_perms"]
  show ?thesis by simp
qed

end
